theory Spec2Isabelle
  imports Main "HOL-Library.Sublist"
begin

section \<open>Python values used by pinocchio/spec.py\<close>

text \<open>
  Strings are Python 2 byte strings, modelled as \<open>string\<close> (a list of bytes).
  A raise is a value of \<open>error\<close>; a pure function that may raise returns
  \<open>error + 'a\<close> with \<open>Inl\<close> for the exception.
\<close>

datatype error = IndexError | KeyError

text \<open>Python's \<open>s[i:]\<close> and \<open>s[:j]\<close>: a negative index counts from the end, and
  an index outside the string is clipped to it.\<close>

definition clip_index :: "int \<Rightarrow> 'a list \<Rightarrow> nat" where
  "clip_index i s =
     (let n = int (length s); j = (if i < 0 then i + n else i)
      in if j < 0 then 0 else if j > n then length s else nat j)"

definition slice_from :: "int \<Rightarrow> 'a list \<Rightarrow> 'a list" where
  "slice_from i s = drop (clip_index i s) s"

definition slice_to :: "int \<Rightarrow> 'a list \<Rightarrow> 'a list" where
  "slice_to j s = take (clip_index j s) s"

text \<open>\<open>str.replace(old, new)\<close>: every non-overlapping occurrence of \<open>old\<close>, found
  from the left, is replaced by \<open>new\<close>. For an empty \<open>old\<close> Python inserts
  \<open>new\<close> before every character and at the end.\<close>

function str_replace :: "string \<Rightarrow> string \<Rightarrow> string \<Rightarrow> string" where
  "str_replace old new s =
     (if old = [] then new @ concat (map (\<lambda>c. c # new) s)
      else if s = [] then []
      else if take (length old) s = old
        then new @ str_replace old new (drop (length old) s)
      else hd s # str_replace old new (tl s))"
  by pat_completeness auto
termination
  by (relation "measure (\<lambda>(old, new, s). length s)") auto

declare str_replace.simps [simp del]

text \<open>ASCII case mapping, as \<open>str.lower\<close>, \<open>str.upper\<close> and \<open>str.capitalize\<close>
  do on byte strings in the C locale.\<close>

definition is_upper :: "char \<Rightarrow> bool" where
  "is_upper c = (65 \<le> (of_char c :: nat) \<and> (of_char c :: nat) \<le> 90)"

definition is_lower :: "char \<Rightarrow> bool" where
  "is_lower c = (97 \<le> (of_char c :: nat) \<and> (of_char c :: nat) \<le> 122)"

definition lower_char :: "char \<Rightarrow> char" where
  "lower_char c = (if is_upper c then char_of ((of_char c :: nat) + 32) else c)"

definition upper_char :: "char \<Rightarrow> char" where
  "upper_char c = (if is_lower c then char_of ((of_char c :: nat) - 32) else c)"

definition lower :: "string \<Rightarrow> string" where
  "lower s = map lower_char s"

definition capitalize :: "string \<Rightarrow> string" where
  "capitalize s = (case s of [] \<Rightarrow> [] | c # cs \<Rightarrow> upper_char c # map lower_char cs)"

text \<open>\<open>re.sub(r'([A-Z])', f, s)\<close>: the pattern matches exactly one byte in the range
  A to Z, so every such byte is a match of its own and is replaced by \<open>f\<close> of the
  matched text (group 1 is the whole match).\<close>

definition re_sub_upper :: "(string \<Rightarrow> string) \<Rightarrow> string \<Rightarrow> string" where
  "re_sub_upper f s = concat (map (\<lambda>c. if is_upper c then f [c] else [c]) s)"

section \<open>Name transforms\<close>

definition remove_leading :: "string \<Rightarrow> string \<Rightarrow> string" where
  "remove_leading needle haystack =
     (if slice_to (int (length needle)) haystack = needle
      then slice_from (int (length needle)) haystack
      else haystack)"

definition remove_trailing :: "string \<Rightarrow> string \<Rightarrow> string" where
  "remove_trailing needle haystack =
     (if slice_from (- int (length needle)) haystack = needle
      then slice_to (- int (length needle)) haystack
      else haystack)"

definition remove_leading_and_trailing :: "string \<Rightarrow> string \<Rightarrow> string" where
  "remove_leading_and_trailing needle haystack =
     remove_leading needle (remove_trailing needle haystack)"

definition wordize :: "string \<Rightarrow> string" where
  "wordize m = '' '' @ lower m"

text \<open>\<open>string[0]\<close> raises IndexError on the empty string, before \<open>re.sub\<close> runs.\<close>

definition camel2word :: "string \<Rightarrow> error + string" where
  "camel2word s =
     (case s of
        [] \<Rightarrow> Inl IndexError
      | c # cs \<Rightarrow> Inr (c # re_sub_upper wordize cs))"

definition contractions :: "(string \<times> string) list" where
  "contractions =
     [(''dont'', ''don't''),
      (''doesnt'', ''doesn't''),
      (''wont'', ''won't''),
      (''wasnt'', ''wasn't'')]"

fun complete_english_loop :: "(string \<times> string) list \<Rightarrow> string \<Rightarrow> string" where
  "complete_english_loop [] s = s"
| "complete_english_loop ((x, y) # rest) s = complete_english_loop rest (str_replace x y s)"

definition complete_english :: "string \<Rightarrow> string" where
  "complete_english s = complete_english_loop contractions s"

definition underscore2word :: "string \<Rightarrow> string" where
  "underscore2word s = str_replace ''_'' '' '' s"

definition underscored2spec :: "string \<Rightarrow> string" where
  "underscored2spec name =
     complete_english (underscore2word
       (remove_trailing ''_test'' (remove_leading ''test_'' name)))"

definition camelcase2spec :: "string \<Rightarrow> error + string" where
  "camelcase2spec name = camel2word (remove_leading_and_trailing ''Test'' name)"


section \<open>Python objects seen by the plugin\<close>

text \<open>
  The classes the dispatch tables and \<open>isinstance\<close> tests of the module name;
  \<open>OtherClass\<close> stands for every other class. An object carries the method
  resolution order of its type, and \<open>isinstance(obj, C)\<close> holds when \<open>C\<close> occurs
  in it, so an object can be an instance of several listed classes at once
  (a \<open>doctest.DocTestCase\<close> is a \<open>unittest.TestCase\<close>).

  \<open>obj_id\<close> is what \<open>==\<close> and \<open>!=\<close> tell objects apart by. A class, a
  module and a function are equal to themselves only, so for them it is
  \<open>id(obj)\<close>: two classes of one name and one docstring are two objects and
  differ in it. A test case takes \<open>__eq__\<close> from the unittest library, and for
  it \<open>obj_id\<close> names the cases that library holds equal to it.
\<close>

datatype pyclass =
    MethodTestCase
  | FunctionTestCase
  | DocTestCase
  | TestCase
  | DeprecatedTest
  | SkipTest
  | ModuleType
  | FunctionType
  | ClassType
  | TypeType
  | OtherClass string

record pyobject =
  mro :: "pyclass list"
  obj_id :: nat

definition isinstance :: "'a pyobject_scheme \<Rightarrow> pyclass \<Rightarrow> bool" where
  "isinstance obj c = (c \<in> set (mro obj))"

text \<open>A docstring or attribute value that is \<open>None\<close> or a string is a
  \<open>string option\<close>; \<open>None\<close> and the empty string are false.\<close>

definition truthy :: "string option \<Rightarrow> bool" where
  "truthy v = (case v of None \<Rightarrow> False | Some s \<Rightarrow> s \<noteq> [])"

text \<open>\<open>x or y\<close> with \<open>y\<close> a string.\<close>

definition py_or :: "string option \<Rightarrow> string \<Rightarrow> string" where
  "py_or x y = (case x of None \<Rightarrow> y | Some s \<Rightarrow> if s \<noteq> [] then s else y)"

record example =
  source :: string
  exc_msg :: "string option"
  want :: string

record DocTest =
  dt_name :: string
  examples :: "example list"

text \<open>
  The attributes the module reads from a module, function, method, class or test
  case object: \<open>obj_name\<close> is \<open>__name__\<close> (\<open>func_name\<close> of a function),
  \<open>getdoc\<close> is the value of \<open>inspect.getdoc(obj)\<close>, \<open>description\<close> is
  \<open>None\<close> when the object has no such attribute, \<open>dt_test\<close> is \<open>_dt_test\<close>,
  \<open>testMethodName\<close> and \<open>testMethodDoc\<close> are \<open>_testMethodName\<close> and
  \<open>_testMethodDoc\<close>.
\<close>

record pyobj = pyobject +
  obj_name :: string
  getdoc :: "string option"
  func_doc :: "string option"
  description :: "string option option"
  dt_test :: DocTest
  testMethodName :: string
  testMethodDoc :: "string option"

text \<open>
  A test case adds the attributes of the nose cases: \<open>test_method\<close> is
  \<open>MethodTestCase.method\<close>, \<open>descriptor\<close> and \<open>test_func\<close> are
  \<open>FunctionTestCase.descriptor\<close> and \<open>FunctionTestCase.test\<close>, and \<open>arg\<close> holds
  \<open>str(a)\<close> for every \<open>a\<close> of \<open>FunctionTestCase.arg\<close>.
\<close>

record testcase = pyobj +
  test_method :: pyobj
  descriptor :: "pyobj option"
  test_func :: pyobj
  arg :: "string list"

text \<open>The \<open>nose.case.Test\<close> wrapper handed to the hooks: \<open>test\<close> and \<open>context\<close>.\<close>

record Test =
  test :: testcase
  test_context :: "pyobj option"

section \<open>Dispatch on type\<close>

datatype key = KTrue | KType pyclass

fun key_matches :: "'a pyobject_scheme \<Rightarrow> key \<Rightarrow> bool" where
  "key_matches instance KTrue = True"
| "key_matches instance (KType c) = isinstance instance c"

text \<open>Falling off the loop returns Python's \<open>None\<close>, here \<open>None\<close>.\<close>

fun dispatch_on_type ::
  "(key \<times> ('a pyobject_scheme \<Rightarrow> 'r)) list \<Rightarrow> 'a pyobject_scheme \<Rightarrow> 'r option" where
  "dispatch_on_type [] instance = None"
| "dispatch_on_type ((type, func) # dispatch_table) instance =
     (if key_matches instance type then Some (func instance)
      else dispatch_on_type dispatch_table instance)"

section \<open>Descriptions\<close>

definition camelcaseDescription :: "pyobj \<Rightarrow> error + string" where
  "camelcaseDescription object =
     (if truthy (getdoc object) then Inr (the (getdoc object))
      else camelcase2spec (obj_name object))"

definition underscoredDescription :: "pyobj \<Rightarrow> error + string" where
  "underscoredDescription object =
     Inr (py_or (getdoc object) (capitalize (underscored2spec (obj_name object))))"

definition doctestContextDescription :: "pyobj \<Rightarrow> error + string" where
  "doctestContextDescription doctest = Inr (dt_name (dt_test doctest))"

text \<open>What a strategy returns: \<open>None\<close> or a string, or a generator of strings
  (the list of the values it yields).\<close>

datatype spec = Value "string option" | Generator "string list"

definition noseMethodDescription :: "testcase \<Rightarrow> spec" where
  "noseMethodDescription t =
     Value (Some (py_or (getdoc (test_method t))
                        (underscored2spec (obj_name (test_method t)))))"

definition unittestMethodDescription :: "testcase \<Rightarrow> spec" where
  "unittestMethodDescription t =
     Value (Some (py_or (testMethodDoc t) (underscored2spec (testMethodName t))))"

fun str_join :: "string \<Rightarrow> string list \<Rightarrow> string" where
  "str_join sep [] = []"
| "str_join sep [x] = x"
| "str_join sep (x # y # ys) = x @ sep @ str_join sep (y # ys)"

definition noseFunctionDescription :: "testcase \<Rightarrow> spec" where
  "noseFunctionDescription t =
     (case descriptor t of
        Some d \<Rightarrow>
          (case description (test_func t) of
             Some v \<Rightarrow> Value v
           | None \<Rightarrow> Value (Some (''holds for '' @ str_join '', '' (arg t))))
      | None \<Rightarrow>
          Value (Some (py_or (func_doc (test_func t))
                             (underscored2spec (obj_name (test_func t))))))"

text \<open>\<open>str.strip\<close>, \<open>str.rstrip\<close> and \<open>str.rsplit(sep, 1)\<close> on a string that
  contains the one-byte separator.\<close>

definition is_space :: "char \<Rightarrow> bool" where
  "is_space c = (c \<in> set [CHR '' '', CHR 0x09, CHR 0x0A, CHR 0x0B, CHR 0x0C, CHR 0x0D])"

definition rstrip :: "string \<Rightarrow> string" where
  "rstrip s = rev (dropWhile is_space (rev s))"

definition strip :: "string \<Rightarrow> string" where
  "strip s = dropWhile is_space (rstrip s)"

definition rsplit1 :: "char \<Rightarrow> string \<Rightarrow> string \<times> string" where
  "rsplit1 sep s =
     (rev (tl (dropWhile (\<lambda>c. c \<noteq> sep) (rev s))), rev (takeWhile (\<lambda>c. c \<noteq> sep) (rev s)))"

text \<open>One pass of the loop body of \<open>doctestExamplesDescription\<close>: the line it
  yields for an example, if any.\<close>

definition example_spec :: "example \<Rightarrow> string option" where
  "example_spec ex =
     (let src = str_replace [CHR 0x0A] '' '' (source ex);
          (src', wnt) =
            (if CHR ''#'' \<in> set src
               then (fst (rsplit1 CHR ''#'' src), Some (snd (rsplit1 CHR ''#'' src)))
             else if truthy (exc_msg ex)
               then (src, Some (''throws '' @ [CHR 0x22] @ rstrip (the (exc_msg ex)) @ [CHR 0x22]))
             else if want ex \<noteq> []
               then (src, Some (''returns '' @ str_replace [CHR 0x0A] '' '' (want ex)))
             else (src, None))
      in if truthy wnt then Some (strip src' @ '' '' @ strip (the wnt)) else None)"

fun doctest_lines :: "example list \<Rightarrow> string list" where
  "doctest_lines [] = []"
| "doctest_lines (ex # exs) =
     (case example_spec ex of
        Some line \<Rightarrow> line # doctest_lines exs
      | None \<Rightarrow> doctest_lines exs)"

definition doctestExamplesDescription :: "testcase \<Rightarrow> spec" where
  "doctestExamplesDescription t = Generator (doctest_lines (examples (dt_test t)))"

definition supported_test_types :: "(key \<times> (testcase \<Rightarrow> spec)) list" where
  "supported_test_types =
     [(KType MethodTestCase, noseMethodDescription),
      (KType FunctionTestCase, noseFunctionDescription),
      (KType DocTestCase, doctestExamplesDescription),
      (KType TestCase, unittestMethodDescription)]"

definition testDescription :: "Test \<Rightarrow> spec option" where
  "testDescription t = dispatch_on_type supported_test_types (test t)"

definition supported_context_types :: "(key \<times> (pyobj \<Rightarrow> error + string)) list" where
  "supported_context_types =
     [(KType ModuleType, underscoredDescription),
      (KType FunctionType, underscoredDescription),
      (KType DocTestCase, doctestContextDescription),
      (KType ClassType, camelcaseDescription),
      (KType TypeType, camelcaseDescription)]"

text \<open>A context is \<open>None\<close> or an object. \<open>None\<close> is an instance of none of the
  five table types, so the loop falls off for it.\<close>

definition contextDescription :: "pyobj option \<Rightarrow> (error + string) option" where
  "contextDescription ctx =
     (case ctx of
        None \<Rightarrow> None
      | Some c \<Rightarrow> dispatch_on_type supported_context_types c)"

text \<open>Returning \<open>test.test\<close> as a context forgets the attributes only a test case
  has, and keeps which object it is.\<close>

definition testContext :: "Test \<Rightarrow> pyobj option" where
  "testContext t =
     (if isinstance (test t) FunctionTestCase \<and> descriptor (test t) \<noteq> None
        then descriptor (test t)
      else if isinstance (test t) DocTestCase
        then Some (pyobj.truncate (test t))
      else test_context t)"

text \<open>\<open>a != b\<close> of two contexts: \<open>None\<close> differs from every object, and two
  objects differ when they are not the same object, whatever their names and
  docstrings.\<close>

fun context_ne :: "pyobj option \<Rightarrow> pyobj option \<Rightarrow> bool" where
  "context_ne None None = False"
| "context_ne None (Some b) = True"
| "context_ne (Some a) None = True"
| "context_ne (Some a) (Some b) = (obj_id a \<noteq> obj_id b)"

section \<open>Output stream that can be enabled and disabled\<close>

text \<open>
  A call that may raise after it has changed the state returns the state with the
  exception: \<open>Raised e s\<close> is the exception \<open>e\<close> leaving the state \<open>s\<close> behind.
\<close>

datatype 's outcome = Returned 's | Raised error 's

definition and_then :: "'s outcome \<Rightarrow> ('s \<Rightarrow> 's outcome) \<Rightarrow> 's outcome" where
  "and_then r f = (case r of Returned s \<Rightarrow> f s | Raised e s \<Rightarrow> Raised e s)"

text \<open>
  \<open>StringIO.StringIO\<close>: the buffer and the position. Its \<open>write\<close>, \<open>truncate\<close>,
  \<open>seek(0)\<close> and \<open>read()\<close> are those of the standard library, for a position
  inside the buffer or past its end (the gap is filled with NUL bytes).
\<close>

record StringIO =
  buf :: string
  pos :: nat

definition StringIO_write :: "string \<Rightarrow> StringIO \<Rightarrow> StringIO" where
  "StringIO_write s io =
     (if s = [] then io
      else let b = buf io @ replicate (pos io - length (buf io)) (CHR 0x00)
           in \<lparr>buf = take (pos io) b @ s @ drop (pos io + length s) b,
               pos = pos io + length s\<rparr>)"

definition StringIO_truncate :: "StringIO \<Rightarrow> StringIO" where
  "StringIO_truncate io = io\<lparr>buf := take (pos io) (buf io)\<rparr>"

definition StringIO_seek0 :: "StringIO \<Rightarrow> StringIO" where
  "StringIO_seek0 io = io\<lparr>pos := 0\<rparr>"

definition StringIO_read :: "StringIO \<Rightarrow> string \<times> StringIO" where
  "StringIO_read io = (drop (pos io) (buf io), io\<lparr>pos := length (buf io)\<rparr>)"

text \<open>
  The three streams of an \<open>OutputStream\<close> are three objects and \<open>self.stream\<close> is
  an alias of one of them: \<open>stream\<close> says which. \<open>on_stream\<close> and \<open>off_stream\<close>
  hold the texts written to them, in order, one entry per call of \<open>write\<close>.
\<close>

datatype target = OnStream | OffStream | CaptureStream

record OutputStream =
  capture_stream :: StringIO
  on_stream :: "string list"
  off_stream :: "string list"
  stream :: target

text \<open>\<open>OutputStream(on_stream, off_stream)\<close>, with what the two streams hold so far.\<close>

definition OutputStream_init :: "string list \<Rightarrow> string list \<Rightarrow> OutputStream" where
  "OutputStream_init on_s off_s =
     \<lparr>capture_stream = \<lparr>buf = [], pos = 0\<rparr>,
      on_stream = on_s, off_stream = off_s, stream = OnStream\<rparr>"

definition on :: "OutputStream \<Rightarrow> OutputStream" where
  "on s = s\<lparr>stream := OnStream\<rparr>"

definition off :: "OutputStream \<Rightarrow> OutputStream" where
  "off s = s\<lparr>stream := OffStream\<rparr>"

definition capture :: "OutputStream \<Rightarrow> OutputStream" where
  "capture s = s\<lparr>capture_stream := StringIO_truncate (capture_stream s),
                  stream := CaptureStream\<rparr>"

definition get_captured :: "OutputStream \<Rightarrow> string \<times> OutputStream" where
  "get_captured s =
     (let (r, io) = StringIO_read (StringIO_seek0 (capture_stream s))
      in (r, s\<lparr>capture_stream := io\<rparr>))"

text \<open>\<open>self.write\<close> is not a method of the class: the decorator's
  \<open>__getattr__\<close> hands it to \<open>self.stream\<close>.\<close>

definition stream_write :: "string \<Rightarrow> OutputStream \<Rightarrow> OutputStream" where
  "stream_write text s =
     (case stream s of
        OnStream \<Rightarrow> s\<lparr>on_stream := on_stream s @ [text]\<rparr>
      | OffStream \<Rightarrow> s\<lparr>off_stream := off_stream s @ [text]\<rparr>
      | CaptureStream \<Rightarrow> s\<lparr>capture_stream := StringIO_write text (capture_stream s)\<rparr>)"

text \<open>\<open>writeln(arg)\<close> of the decorator: \<open>arg\<close> when it is true, then a newline.\<close>

definition writeln :: "string \<Rightarrow> OutputStream \<Rightarrow> OutputStream" where
  "writeln a s = stream_write [CHR 0x0A] (if a \<noteq> [] then stream_write a s else s)"

definition print_text :: "string \<Rightarrow> OutputStream \<Rightarrow> OutputStream" where
  "print_text text s = off (stream_write text (on s))"

definition print_line :: "string \<Rightarrow> OutputStream \<Rightarrow> OutputStream" where
  "print_line line s = print_text (line @ [CHR 0x0A]) s"

text \<open>\<open>SpecOutputStream.print_context\<close>:
  \<open>"\n%s" % contextDescription(context)\<close> is evaluated before \<open>print_line\<close> is
  called, so a raise leaves the stream as it was; \<open>None\<close> is formatted as
  \<open>None\<close>.\<close>

definition stream_print_context :: "pyobj option \<Rightarrow> OutputStream \<Rightarrow> OutputStream outcome" where
  "stream_print_context ctx s =
     (case contextDescription ctx of
        None \<Rightarrow> Returned (print_line ([CHR 0x0A] @ ''None'') s)
      | Some (Inl e) \<Rightarrow> Raised e s
      | Some (Inr d) \<Rightarrow> Returned (print_line ([CHR 0x0A] @ d) s))"

text \<open>\<open>SpecOutputStream._print_spec\<close>.\<close>

definition print_one_spec ::
  "(string \<Rightarrow> error + string) \<Rightarrow> string \<Rightarrow> string option \<Rightarrow> OutputStream
   \<Rightarrow> OutputStream outcome" where
  "print_one_spec colorized spc status s =
     (case colorized (if truthy status
                      then ''- '' @ spc @ '' ('' @ the status @ '')''
                      else ''- '' @ spc) of
        Inl e \<Rightarrow> Raised e s
      | Inr line \<Rightarrow> Returned (print_line line s))"

fun print_each_spec ::
  "(string \<Rightarrow> error + string) \<Rightarrow> string list \<Rightarrow> string option \<Rightarrow> OutputStream
   \<Rightarrow> OutputStream outcome" where
  "print_each_spec colorized [] status s = Returned s"
| "print_each_spec colorized (spc # rest) status s =
     and_then (print_one_spec colorized spc status s) (print_each_spec colorized rest status)"

text \<open>\<open>SpecOutputStream.print_spec\<close>.\<close>

definition print_spec ::
  "(string \<Rightarrow> error + string) \<Rightarrow> Test \<Rightarrow> string option \<Rightarrow> OutputStream
   \<Rightarrow> OutputStream outcome" where
  "print_spec colorized t status s =
     (case testDescription t of
        Some (Generator specs) \<Rightarrow> print_each_spec colorized specs status s
      | Some (Value (Some spc)) \<Rightarrow>
          if spc \<noteq> [] then print_one_spec colorized spc status s else Returned s
      | Some (Value None) \<Rightarrow> Returned s
      | None \<Rightarrow> Returned s)"

section \<open>Color helpers\<close>

definition color_end :: string where
  "color_end = CHR 0x1B # ''[1;0m''"

definition colors :: "string \<rightharpoonup> string" where
  "colors = [''green'' \<mapsto> CHR 0x1B # ''[1;32m'',
             ''red'' \<mapsto> CHR 0x1B # ''[1;31m'',
             ''yellow'' \<mapsto> CHR 0x1B # ''[1;33m'']"

text \<open>\<open>str.splitlines(keepends)\<close> of a byte string: a line ends at \<open>\n\<close>, \<open>\r\<close> or
  \<open>\r\n\<close>; \<open>cur\<close> is the line read so far.\<close>

fun splitlines_from :: "bool \<Rightarrow> string \<Rightarrow> string \<Rightarrow> string list" where
  "splitlines_from keepends cur [] = (if cur = [] then [] else [cur])"
| "splitlines_from keepends cur [c] =
     (if c = CHR 0x0A \<or> c = CHR 0x0D
      then [cur @ (if keepends then [c] else [])]
      else [cur @ [c]])"
| "splitlines_from keepends cur (c # d # cs) =
     (if c = CHR 0x0D \<and> d = CHR 0x0A
        then (cur @ (if keepends then [c, d] else [])) # splitlines_from keepends [] cs
      else if c = CHR 0x0A \<or> c = CHR 0x0D
        then (cur @ (if keepends then [c] else [])) # splitlines_from keepends [] (d # cs)
      else splitlines_from keepends (cur @ [c]) (d # cs))"

definition splitlines :: "bool \<Rightarrow> string \<Rightarrow> string list" where
  "splitlines keepends text = splitlines_from keepends [] text"

text \<open>The generator inside \<open>"".join\<close> looks \<open>colors[color]\<close> up once per line, so an
  unknown color raises KeyError only when the text has a line.\<close>

fun in_color_lines :: "string \<Rightarrow> string list \<Rightarrow> error + string" where
  "in_color_lines color [] = Inr []"
| "in_color_lines color (line # rest) =
     (case colors color of
        None \<Rightarrow> Inl KeyError
      | Some c \<Rightarrow>
          (case in_color_lines color rest of
             Inl e \<Rightarrow> Inl e
           | Inr r \<Rightarrow> Inr (c @ line @ color_end @ r)))"

definition in_color :: "string \<Rightarrow> string \<Rightarrow> error + string" where
  "in_color color text = in_color_lines color (splitlines True text)"

section \<open>The plugin\<close>

text \<open>An option value: \<open>None\<close> or the string of the environment default, or
  \<open>True\<close> when the flag was given.\<close>

datatype optval = OptNone | OptTrue | OptStr string

fun opt_truthy :: "optval \<Rightarrow> bool" where
  "opt_truthy OptNone = False"
| "opt_truthy OptTrue = True"
| "opt_truthy (OptStr s) = (s \<noteq> [])"

record options =
  enable_plugin_spec :: optval
  verbosity :: int
  spec_color :: optval
  opt_spec_doctests :: optval

text \<open>The attributes of \<open>Spec\<close> that the module sets: \<open>colorize\<close> is
  \<open>self._colorize\<close>, \<open>spec_stream\<close> is \<open>self.stream\<close>.\<close>

record Spec =
  colorize :: "string \<Rightarrow> string \<Rightarrow> error + string"
  spec_doctests :: optval
  current_context :: "pyobj option"
  spec_stream :: OutputStream

text \<open>\<open>Spec.configure\<close>, after \<open>Plugin.configure\<close> of the host; it also raises the
  verbosity of the options it is given.\<close>

definition configure :: "options \<Rightarrow> Spec \<Rightarrow> options \<times> Spec" where
  "configure opts self =
     (let opts' = (if opt_truthy (enable_plugin_spec opts)
                   then opts\<lparr>verbosity := max (verbosity opts) 2\<rparr> else opts)
      in (opts',
          self\<lparr>colorize := (if opt_truthy (spec_color opts')
                             then (\<lambda>color text. in_color color text)
                             else (\<lambda>color text. Inr text)),
               spec_doctests := opt_spec_doctests opts'\<rparr>))"

text \<open>\<open>Spec.begin\<close>.\<close>

definition begin_run :: "Spec \<Rightarrow> Spec" where
  "begin_run self = self\<lparr>current_context := None\<rparr>"

text \<open>\<open>Spec.setOutputStream\<close>: the host's stream, with what it holds so far, and a
  freshly opened null device.\<close>

definition setOutputStream :: "string list \<Rightarrow> Spec \<Rightarrow> Spec" where
  "setOutputStream host_stream self = self\<lparr>spec_stream := OutputStream_init host_stream []\<rparr>"

definition with_stream :: "(OutputStream \<Rightarrow> OutputStream outcome) \<Rightarrow> Spec \<Rightarrow> Spec outcome" where
  "with_stream f self =
     (case f (spec_stream self) of
        Returned s \<Rightarrow> Returned (self\<lparr>spec_stream := s\<rparr>)
      | Raised e s \<Rightarrow> Raised e (self\<lparr>spec_stream := s\<rparr>))"

text \<open>\<open>Spec._print_context\<close> and \<open>Spec._print_spec\<close>.\<close>

definition Spec_print_context :: "pyobj option \<Rightarrow> Spec \<Rightarrow> Spec outcome" where
  "Spec_print_context ctx self =
     (if (case ctx of None \<Rightarrow> False | Some c \<Rightarrow> isinstance c DocTestCase)
         \<and> \<not> opt_truthy (spec_doctests self)
      then Returned self
      else with_stream (stream_print_context ctx) self)"

definition Spec_print_spec :: "string \<Rightarrow> Test \<Rightarrow> string option \<Rightarrow> Spec \<Rightarrow> Spec outcome" where
  "Spec_print_spec color t status self =
     (if isinstance (test t) DocTestCase \<and> \<not> opt_truthy (spec_doctests self)
      then Returned self
      else with_stream (print_spec (colorize self color) t status) self)"

definition beforeTest :: "Test \<Rightarrow> Spec \<Rightarrow> Spec outcome" where
  "beforeTest t self =
     and_then
       (if context_ne (testContext t) (current_context self)
        then and_then (Spec_print_context (testContext t) self)
               (\<lambda>self'. Returned (self'\<lparr>current_context := testContext t\<rparr>))
        else Returned self)
       (\<lambda>self'. Returned (self'\<lparr>spec_stream := off (spec_stream self')\<rparr>))"

definition addSuccess :: "Test \<Rightarrow> Spec \<Rightarrow> Spec outcome" where
  "addSuccess t self = Spec_print_spec ''green'' t None self"

text \<open>\<open>err\<close> is the triple of \<open>sys.exc_info()\<close>; only \<open>err[1]\<close>, the exception
  value, is read.\<close>

type_synonym exc_info = "pyclass \<times> pyobject \<times> string"

definition addFailure :: "Test \<Rightarrow> exc_info \<Rightarrow> Spec \<Rightarrow> Spec outcome" where
  "addFailure t err self = Spec_print_spec ''red'' t (Some ''FAILED'') self"

definition print_spec_func :: "Test \<Rightarrow> string \<Rightarrow> string \<Rightarrow> pyobject \<Rightarrow> Spec \<Rightarrow> Spec outcome" where
  "print_spec_func t color message = (\<lambda>_. Spec_print_spec color t (Some message))"

definition supported_error_types ::
  "Test \<Rightarrow> (key \<times> (pyobject \<Rightarrow> Spec \<Rightarrow> Spec outcome)) list" where
  "supported_error_types t =
     [(KType DeprecatedTest, print_spec_func t ''yellow'' ''DEPRECATED''),
      (KType SkipTest, print_spec_func t ''yellow'' ''SKIPPED''),
      (KTrue, print_spec_func t ''red'' ''ERROR'')]"

definition addError :: "Test \<Rightarrow> exc_info \<Rightarrow> Spec \<Rightarrow> Spec outcome" where
  "addError t err self =
     (case dispatch_on_type (supported_error_types t) (fst (snd err)) of
        Some effect \<Rightarrow> effect self
      | None \<Rightarrow> Returned self)"

text \<open>\<open>Spec.afterTest\<close> and \<open>Spec.finalize\<close>; the latter does not read its
  \<open>result\<close> argument.\<close>

definition afterTest :: "Test \<Rightarrow> Spec \<Rightarrow> Spec" where
  "afterTest t self = self\<lparr>spec_stream := capture (spec_stream self)\<rparr>"

definition finalize :: "Spec \<Rightarrow> Spec" where
  "finalize self =
     (let (captured, s) = get_captured (on (spec_stream self))
      in self\<lparr>spec_stream := writeln captured s\<rparr>)"

text \<open>The host writes through the stream \<open>setOutputStream\<close> returned to it.\<close>

definition host_write :: "string \<Rightarrow> Spec \<Rightarrow> Spec" where
  "host_write text self = self\<lparr>spec_stream := stream_write text (spec_stream self)\<rparr>"


section \<open>Reference definitions for the properties\<close>

text \<open>A string is unbordered when no proper nonempty suffix of it is a prefix of
  it: two occurrences of such a string never overlap.\<close>

definition unbordered :: "string \<Rightarrow> bool" where
  "unbordered x =
     (x \<noteq> [] \<and> list_all (\<lambda>k. drop k x \<noteq> take (length x - k) x) [1..<length x])"

text \<open>What \<open>camel2word\<close> is to do with a character after the first: an uppercase
  ASCII letter becomes a space and the lowercase letter, anything else stays.\<close>

definition word_of_char :: "char \<Rightarrow> string" where
  "word_of_char c =
     (case map_of (zip ''ABCDEFGHIJKLMNOPQRSTUVWXYZ'' ''abcdefghijklmnopqrstuvwxyz'') c of
        Some l \<Rightarrow> [CHR '' '', l]
      | None \<Rightarrow> [c])"

text \<open>The steps of \<open>underscored2spec\<close> in words: strip the prefix, strip the
  suffix, turn underscores into spaces, rewrite the four contractions.\<close>

definition strip_prefix :: "string \<Rightarrow> string \<Rightarrow> string" where
  "strip_prefix p s = (if prefix p s then drop (length p) s else s)"

definition strip_suffix :: "string \<Rightarrow> string \<Rightarrow> string" where
  "strip_suffix p s = (if suffix p s then take (length s - length p) s else s)"

definition underscores_to_spaces :: "string \<Rightarrow> string" where
  "underscores_to_spaces s = map (\<lambda>c. if c = CHR ''_'' then CHR '' '' else c) s"

definition underscored2spec_steps :: "string \<Rightarrow> string" where
  "underscored2spec_steps name =
     str_replace ''wasnt'' ''wasn't''
       (str_replace ''wont'' ''won't''
         (str_replace ''doesnt'' ''doesn't''
           (str_replace ''dont'' ''don't''
             (underscores_to_spaces
               (strip_suffix ''_test'' (strip_prefix ''test_'' name))))))"

text \<open>The state an outcome leaves behind.\<close>

fun state_of :: "'s outcome \<Rightarrow> 's" where
  "state_of (Returned s) = s"
| "state_of (Raised e s) = s"

text \<open>The specification lines of a test: the values of a generator, or the one
  nonempty string.\<close>

definition spec_lines :: "Test \<Rightarrow> string list" where
  "spec_lines t =
     (case testDescription t of
        Some (Generator specs) \<Rightarrow> specs
      | Some (Value (Some spc)) \<Rightarrow> if spc \<noteq> [] then [spc] else []
      | Some (Value None) \<Rightarrow> []
      | None \<Rightarrow> [])"

text \<open>A doctest case is passed over while the doctest option is off.\<close>

definition suppressed :: "Spec \<Rightarrow> 'a pyobject_scheme \<Rightarrow> bool" where
  "suppressed self obj = (isinstance obj DocTestCase \<and> \<not> opt_truthy (spec_doctests self))"

text \<open>The text a colorizer gives, for a colorizer that does not raise.\<close>

definition paint :: "Spec \<Rightarrow> string \<Rightarrow> string \<Rightarrow> string" where
  "paint self color text = (case colorize self color text of Inr out \<Rightarrow> out | Inl e \<Rightarrow> [])"

text \<open>The texts an outcome hook writes to the on-stream: one line per
  specification line, with the status in parentheses when there is one.\<close>

definition display :: "Spec \<Rightarrow> string \<Rightarrow> string option \<Rightarrow> Test \<Rightarrow> string list" where
  "display self color status t =
     (if suppressed self (test t) then []
      else map (\<lambda>l. paint self color
                       (''- '' @ l @ (case status of None \<Rightarrow> [] | Some st \<Rightarrow> '' ('' @ st @ '')''))
                     @ [CHR 0x0A])
               (spec_lines t))"

text \<open>The color and the status \<open>addError\<close> picks for an exception value.\<close>

definition error_status :: "pyobject \<Rightarrow> string \<times> string" where
  "error_status exc =
     (if isinstance exc DeprecatedTest then (''yellow'', ''DEPRECATED'')
      else if isinstance exc SkipTest then (''yellow'', ''SKIPPED'')
      else (''red'', ''ERROR''))"

text \<open>The heading a context change prints, when describing the context returns.\<close>

definition context_heading :: "pyobj option \<Rightarrow> string" where
  "context_heading ctx =
     (case contextDescription ctx of
        None \<Rightarrow> [CHR 0x0A] @ ''None'' @ [CHR 0x0A]
      | Some (Inr d) \<Rightarrow> [CHR 0x0A] @ d @ [CHR 0x0A]
      | Some (Inl e) \<Rightarrow> [])"

text \<open>A line as \<open>splitlines(True)\<close> gives it: not empty, and after the longest
  prefix free of line breaks nothing but one terminator, if any.\<close>

definition terminator :: "char \<Rightarrow> bool" where
  "terminator c = (c = CHR 0x0A \<or> c = CHR 0x0D)"

definition one_line :: "string \<Rightarrow> bool" where
  "one_line l =
     (l \<noteq> [] \<and>
      dropWhile (\<lambda>c. \<not> terminator c) l
        \<in> set [[], [CHR 0x0A], [CHR 0x0D], [CHR 0x0D, CHR 0x0A]])"

text \<open>Whether a call returned, and whether a context is one that is passed over.\<close>

fun returned :: "'s outcome \<Rightarrow> bool" where
  "returned (Returned s) = True"
| "returned (Raised e s) = False"

definition suppressed_context :: "Spec \<Rightarrow> pyobj option \<Rightarrow> bool" where
  "suppressed_context self ctx = (case ctx of None \<Rightarrow> False | Some c \<Rightarrow> suppressed self c)"

text \<open>What the host does between \<open>beforeTest\<close> and \<open>afterTest\<close> of a test: it
  writes to the stream and calls outcome hooks, in some order. A hook that
  raises leaves the plugin as it was at the raise.\<close>

datatype event =
    HostWrite string
  | AddSuccess Test
  | AddFailure Test exc_info
  | AddError Test exc_info

fun after_event :: "event \<Rightarrow> Spec \<Rightarrow> Spec" where
  "after_event (HostWrite w) self = host_write w self"
| "after_event (AddSuccess t) self = state_of (addSuccess t self)"
| "after_event (AddFailure t err) self = state_of (addFailure t err self)"
| "after_event (AddError t err) self = state_of (addError t err self)"

fun host_writes :: "event list \<Rightarrow> string list" where
  "host_writes [] = []"
| "host_writes (HostWrite w # es) = w # host_writes es"
| "host_writes (e # es) = host_writes es"

section \<open>Example objects\<close>

definition plain_object :: pyobj where
  "plain_object =
     \<lparr>mro = [OtherClass ''object''], obj_id = 0,
      obj_name = [], getdoc = None, func_doc = None,
      description = None, dt_test = \<lparr>dt_name = [], examples = []\<rparr>,
      testMethodName = [], testMethodDoc = None\<rparr>"

definition plain_case :: testcase where
  "plain_case =
     \<lparr>mro = [OtherClass ''object''], obj_id = 1,
      obj_name = [], getdoc = None, func_doc = None,
      description = None, dt_test = \<lparr>dt_name = [], examples = []\<rparr>,
      testMethodName = [], testMethodDoc = None,
      test_method = plain_object, descriptor = None, test_func = plain_object, arg = []\<rparr>"

text \<open>\<open>class TestFoobar(unittest.TestCase)\<close> with the method \<open>test_is_a_singleton\<close>.\<close>

definition foobar_class :: pyobj where
  "foobar_class =
     plain_object\<lparr>mro := [TypeType, OtherClass ''object''], obj_id := 2,
                  obj_name := ''TestFoobar''\<rparr>"

definition foobar_test :: Test where
  "foobar_test =
     \<lparr>test = plain_case\<lparr>mro := [OtherClass ''TestFoobar'', TestCase, OtherClass ''object''],
                         obj_id := 3,
                         testMethodName := ''test_is_a_singleton''\<rparr>,
      test_context = Some foobar_class\<rparr>"

text \<open>Another class of the same name, in another module, and a test of it.\<close>

definition other_foobar_class :: pyobj where
  "other_foobar_class = foobar_class\<lparr>obj_id := 4\<rparr>"

definition other_foobar_test :: Test where
  "other_foobar_test =
     \<lparr>test = plain_case\<lparr>mro := [OtherClass ''TestFoobar'', TestCase, OtherClass ''object''],
                         obj_id := 5,
                         testMethodName := ''test_can_be_automatically_documented''\<rparr>,
      test_context = Some other_foobar_class\<rparr>"

text \<open>A doctest case of one example, \<open>2 + 3\<close> giving \<open>5\<close>.\<close>

definition doctest_test :: Test where
  "doctest_test =
     \<lparr>test = plain_case\<lparr>mro := [DocTestCase, TestCase, OtherClass ''object''],
                         obj_id := 6,
                         dt_test := \<lparr>dt_name = ''containers.add'',
                                     examples = [\<lparr>source = ''2 + 3'' @ [CHR 0x0A],
                                                  exc_msg = None,
                                                  want = ''5'' @ [CHR 0x0A]\<rparr>]\<rparr>,
                         testMethodName := ''runTest''\<rparr>,
      test_context = None\<rparr>"

text \<open>A test object of a type the plugin does not know.\<close>

definition unknown_test :: Test where
  "unknown_test = \<lparr>test = plain_case, test_context = None\<rparr>"

text \<open>A class named \<open>Test\<close> without a docstring, and a test of it.\<close>

definition bare_class :: pyobj where
  "bare_class =
     plain_object\<lparr>mro := [TypeType, OtherClass ''object''], obj_id := 7, obj_name := ''Test''\<rparr>"

definition bare_test :: Test where
  "bare_test =
     \<lparr>test = plain_case\<lparr>mro := [OtherClass ''Test'', TestCase, OtherClass ''object''],
                         obj_id := 8,
                         testMethodName := ''test_it''\<rparr>,
      test_context = Some bare_class\<rparr>"

text \<open>The \<open>err\<close> of a failed assertion and of a skipped test.\<close>

definition assertion_error :: exc_info where
  "assertion_error =
     (OtherClass ''AssertionError'',
      \<lparr>mro = [OtherClass ''AssertionError'', OtherClass ''Exception'', OtherClass ''object''],
       obj_id = 9\<rparr>,
      ''traceback'')"

definition skip_error :: exc_info where
  "skip_error =
     (SkipTest,
      \<lparr>mro = [SkipTest, OtherClass ''Exception'', OtherClass ''object''], obj_id = 10\<rparr>,
      ''traceback'')"

definition default_options :: options where
  "default_options =
     \<lparr>enable_plugin_spec = OptTrue, verbosity = 1, spec_color = OptNone,
      opt_spec_doctests = OptNone\<rparr>"

definition color_options :: options where
  "color_options = default_options\<lparr>spec_color := OptTrue\<rparr>"

text \<open>The plugin before and after \<open>configure\<close>, \<open>setOutputStream\<close> and \<open>begin\<close>.\<close>

definition unconfigured :: Spec where
  "unconfigured =
     \<lparr>colorize = (\<lambda>color text. Inr text), spec_doctests = OptNone,
      current_context = None, spec_stream = OutputStream_init [] []\<rparr>"

definition started :: "options \<Rightarrow> Spec" where
  "started opts = begin_run (setOutputStream [] (snd (configure opts unconfigured)))"

text \<open>The plugin after \<open>beforeTest\<close> of the first test.\<close>

definition in_foobar :: Spec where
  "in_foobar = state_of (beforeTest foobar_test (started default_options))"

text \<open>A run of the hooks for one test, up to \<open>afterTest\<close>.\<close>

definition after_first_test :: Spec where
  "after_first_test =
     afterTest foobar_test
       (state_of (addSuccess foobar_test
          (state_of (beforeTest foobar_test (started default_options)))))"

section \<open>Slices, prefixes and suffixes\<close>

lemma clip_index_nat: "clip_index (int n) s = min n (length s)"
  by (simp add: clip_index_def Let_def)

lemma slice_to_nat: "slice_to (int n) s = take n s"
  by (simp add: slice_to_def clip_index_nat min_def)

lemma slice_from_nat: "slice_from (int n) s = drop n s"
  by (simp add: slice_from_def clip_index_nat min_def)

lemma clip_index_neg: "clip_index (- int n) s = (if n = 0 then 0 else length s - n)"
  by (auto simp add: clip_index_def Let_def)

lemma remove_leading_prefix: "remove_leading needle h = strip_prefix needle h"
  by (auto simp add: remove_leading_def strip_prefix_def slice_to_nat slice_from_nat prefix_def)
    (metis append_eq_conv_conj)

lemma drop_eq_suffix: "(drop (length h - length needle) h = needle) = suffix needle h"
proof
  assume "drop (length h - length needle) h = needle"
  then have "h = take (length h - length needle) h @ needle"
    by (metis append_take_drop_id)
  then show "suffix needle h"
    unfolding suffix_def by blast
next
  assume "suffix needle h"
  then obtain zs where "h = zs @ needle"
    unfolding suffix_def by blast
  then show "drop (length h - length needle) h = needle"
    by simp
qed

lemma remove_trailing_suffix: "remove_trailing needle h = strip_suffix needle h"
proof (cases "needle = []")
  case True
  then show ?thesis
    by (simp add: remove_trailing_def strip_suffix_def slice_to_def slice_from_def clip_index_neg)
next
  case False
  with drop_eq_suffix [of h needle] show ?thesis
    by (simp add: remove_trailing_def strip_suffix_def slice_to_def slice_from_def clip_index_neg)
qed

section \<open>Replacement\<close>

lemma str_replace_char: "str_replace [c] [d] s = map (\<lambda>x. if x = c then d else x) s"
proof (induction s)
  case Nil
  then show ?case by (simp add: str_replace.simps)
next
  case (Cons a s)
  then show ?case by (subst str_replace.simps) simp
qed

lemma unbordered_no_overlap:
  assumes u: "unbordered x" and p: "take (length x) (a @ x @ b) = x" and a: "a \<noteq> []"
  shows "length x \<le> length a"
proof (rule ccontr)
  assume "\<not> length x \<le> length a"
  then have lt: "length a < length x" by simp
  from a have pos: "1 \<le> length a" by (cases a) auto
  from lt have "take (length x) (a @ x @ b) = a @ take (length x - length a) x"
    by simp
  with p have "a @ take (length x - length a) x = x" by simp
  then have "drop (length a) x = take (length x - length a) x"
    by (metis append_eq_conv_conj)
  moreover from u pos lt have "drop (length a) x \<noteq> take (length x - length a) x"
    by (simp add: unbordered_def list_all_iff)
  ultimately show False by simp
qed

lemma str_replace_occurrence:
  "unbordered x \<Longrightarrow>
   str_replace x y (a @ x @ b) = str_replace x y a @ y @ str_replace x y b"
proof (induction x y a rule: str_replace.induct)
  case (1 old new s)
  from "1.prems" have ne: "old \<noteq> []" by (simp add: unbordered_def)
  show ?case
  proof (cases "s = []")
    case True
    with ne show ?thesis
      by (simp add: str_replace.simps [of old new "old @ b"] str_replace.simps [of old new "[]"])
  next
    case sne: False
    show ?thesis
    proof (cases "take (length old) s = old")
      case True
      then have "length (take (length old) s) = length old" by simp
      then have len: "length old \<le> length s" by simp
      with True have t: "take (length old) (s @ old @ b) = old" by simp
      from len have d: "drop (length old) (s @ old @ b) = drop (length old) s @ old @ b" by simp
      from "1.IH"(1) [OF ne sne True "1.prems"] ne sne True t d show ?thesis
        by (simp add: str_replace.simps [of old new "s @ old @ b"] str_replace.simps [of old new s])
    next
      case False
      have nt: "take (length old) (s @ old @ b) \<noteq> old"
      proof
        assume eq: "take (length old) (s @ old @ b) = old"
        from unbordered_no_overlap [OF "1.prems" eq sne] have "length old \<le> length s" .
        with eq have "take (length old) s = old" by simp
        with False show False by simp
      qed
      from "1.IH"(2) [OF ne sne False "1.prems"] ne sne False nt show ?thesis
        by (simp add: str_replace.simps [of old new "s @ old @ b"] str_replace.simps [of old new s])
    qed
  qed
qed

lemma unbordered_contractions: "list_all (\<lambda>(x, y). unbordered x) contractions"
  by (simp add: contractions_def unbordered_def upt_conv_Cons)

lemma complete_english_unfold:
  "complete_english s =
     str_replace ''wasnt'' ''wasn't''
       (str_replace ''wont'' ''won't''
         (str_replace ''doesnt'' ''doesn't''
           (str_replace ''dont'' ''don't'' s)))"
  by (simp add: complete_english_def contractions_def)

section \<open>Case conversion\<close>

lemma wordize_word_of_char: "(if is_upper c then wordize [c] else [c]) = word_of_char c"
  by (cases c)
    (simp add: is_upper_def wordize_def lower_def lower_char_def word_of_char_def
      char_of_def bit_Suc_0_iff)

lemma re_sub_upper_wordize: "re_sub_upper wordize s = concat (map word_of_char s)"
  by (simp add: re_sub_upper_def wordize_word_of_char)

lemma camel2word_Inl: "(camel2word s = Inl e) = (s = [] \<and> e = IndexError)"
  by (cases s) (auto simp add: camel2word_def)

lemma strip_prefix_Nil: "(strip_prefix p s = []) = (s = [] \<or> s = p)"
  by (auto simp add: strip_prefix_def prefix_def)

lemma strip_suffix_Nil: "(strip_suffix p s = []) = (s = [] \<or> s = p)"
  by (auto simp add: strip_suffix_def suffix_def)

lemma strip_suffix_eq_self: "p \<noteq> [] \<Longrightarrow> (strip_suffix p s = p) = (s = p @ p)"
  by (auto simp add: strip_suffix_def suffix_def)

lemma remove_leading_and_trailing_Nil:
  "needle \<noteq> [] \<Longrightarrow>
   (remove_leading_and_trailing needle name = []) =
   (name = [] \<or> name = needle \<or> name = needle @ needle)"
  by (auto simp add: remove_leading_and_trailing_def remove_leading_prefix remove_trailing_suffix
      strip_prefix_Nil strip_suffix_Nil strip_suffix_eq_self)

section \<open>camel2word\<close>

text \<open>
  C3. For every nonempty string \<open>s\<close>, \<open>camel2word(s)\<close> returns the first character
  of \<open>s\<close> followed by the remaining characters, each uppercase ASCII letter
  replaced by a space and its lowercase form and every other character kept;
  \<open>CamelCase\<close> gives \<open>Camel case\<close>.
\<close>

theorem camel2word_words:
  "(s \<noteq> [] \<longrightarrow> camel2word s = Inr (hd s # concat (map word_of_char (tl s))))
   \<and> camel2word ''CamelCase'' = Inr ''Camel case''"
proof
  show "s \<noteq> [] \<longrightarrow> camel2word s = Inr (hd s # concat (map word_of_char (tl s)))"
    by (cases s) (simp_all add: camel2word_def re_sub_upper_wordize)
  have "camel2word ''CamelCase'' = Inr (CHR ''C'' # concat (map word_of_char ''amelCase''))"
    by (simp add: camel2word_def re_sub_upper_wordize)
  then show "camel2word ''CamelCase'' = Inr ''Camel case''"
    by (simp add: word_of_char_def)
qed

theorem camel2word_words_witness:
  "''CaseWithSpec'' \<noteq> [] \<and> camel2word ''CaseWithSpec'' = Inr ''Case with spec''"
  using camel2word_words [of "''CaseWithSpec''"] by (simp add: word_of_char_def)

section \<open>underscored2spec\<close>

text \<open>
  C4. For every name, \<open>underscored2spec(name)\<close> removes a leading \<open>test_\<close> if
  there is one, then a trailing \<open>_test\<close> if there is one, then turns every
  underscore into a space, then rewrites \<open>dont\<close>, \<open>doesnt\<close>, \<open>wont\<close> and
  \<open>wasnt\<close>, in that order, to their forms with an apostrophe; each rewrite
  replaces an occurrence wherever it stands; a name with neither the prefix nor
  the suffix is not stripped.
\<close>

theorem underscored2spec_steps_eq:
  "underscored2spec name = underscored2spec_steps name
   \<and> (\<forall>(x, y) \<in> set contractions. \<forall>a b.
         str_replace x y (a @ x @ b) = str_replace x y a @ y @ str_replace x y b)
   \<and> (\<not> prefix ''test_'' name \<and> \<not> suffix ''_test'' name \<longrightarrow>
        underscored2spec name = complete_english (underscores_to_spaces name))"
proof -
  have steps: "underscored2spec name = underscored2spec_steps name"
    by (simp add: underscored2spec_def underscored2spec_steps_def complete_english_unfold
        underscore2word_def str_replace_char underscores_to_spaces_def
        remove_leading_prefix remove_trailing_suffix)
  have occ: "\<forall>(x, y) \<in> set contractions. \<forall>a b.
         str_replace x y (a @ x @ b) = str_replace x y a @ y @ str_replace x y b"
    using unbordered_contractions by (auto simp add: list_all_iff str_replace_occurrence)
  have plain: "\<not> prefix ''test_'' name \<and> \<not> suffix ''_test'' name \<longrightarrow>
        underscored2spec name = complete_english (underscores_to_spaces name)"
    by (simp add: underscored2spec_def underscore2word_def str_replace_char
        underscores_to_spaces_def remove_leading_prefix remove_trailing_suffix
        strip_prefix_def strip_suffix_def)
  from steps occ plain show ?thesis by blast
qed

theorem underscored2spec_steps_eq_witness:
  "underscored2spec ''test_doesnt_work_with_sets'' = ''doesn't work with sets''
   \<and> (''wont'', ''won't'') \<in> set contractions
   \<and> str_replace ''wont'' ''won't'' (''it '' @ ''wont'' @ '' do'')
       = str_replace ''wont'' ''won't'' ''it '' @ ''won't'' @ str_replace ''wont'' ''won't'' '' do''
   \<and> \<not> prefix ''test_'' ''is_a_singleton'' \<and> \<not> suffix ''_test'' ''is_a_singleton''
   \<and> underscored2spec ''is_a_singleton'' = complete_english (underscores_to_spaces ''is_a_singleton'')"
proof -
  note main = underscored2spec_steps_eq [of "''test_doesnt_work_with_sets''"]
  have m: "(''wont'', ''won't'') \<in> set contractions"
    by (simp add: contractions_def)
  have p: "\<not> prefix ''test_'' ''is_a_singleton'' \<and> \<not> suffix ''_test'' ''is_a_singleton''"
    by (simp add: suffix_def)
  have v: "underscored2spec_steps ''test_doesnt_work_with_sets'' = ''doesn't work with sets''"
    by code_simp
  from main v have first: "underscored2spec ''test_doesnt_work_with_sets'' = ''doesn't work with sets''"
    by simp
  from main have "\<forall>(x, y) \<in> set contractions. \<forall>a b.
         str_replace x y (a @ x @ b) = str_replace x y a @ y @ str_replace x y b"
    by blast
  with m have "\<forall>a b. str_replace ''wont'' ''won't'' (a @ ''wont'' @ b)
         = str_replace ''wont'' ''won't'' a @ ''won't'' @ str_replace ''wont'' ''won't'' b"
    by blast
  then have occ: "str_replace ''wont'' ''won't'' (''it '' @ ''wont'' @ '' do'')
       = str_replace ''wont'' ''won't'' ''it '' @ ''won't'' @ str_replace ''wont'' ''won't'' '' do''"
    by blast
  from underscored2spec_steps_eq [of "''is_a_singleton''"] p
  have last: "underscored2spec ''is_a_singleton'' = complete_english (underscores_to_spaces ''is_a_singleton'')"
    by blast
  from first m occ p last show ?thesis by blast
qed

section \<open>Empty names\<close>

text \<open>
  C8. \<open>camel2word\<close> raises IndexError on the empty string, so \<open>camelcase2spec\<close>
  raises it on every name that is empty once a trailing and then a leading
  \<open>Test\<close> are removed (these are the empty name, \<open>Test\<close> and \<open>TestTest\<close>),
  and \<open>camelcaseDescription\<close> raises it for a class of such a name that has no
  docstring.
\<close>

theorem camel2word_empty_raises:
  "camel2word [] = Inl IndexError
   \<and> (remove_leading_and_trailing ''Test'' name = [] \<longrightarrow> camelcase2spec name = Inl IndexError)
   \<and> (camelcase2spec name = Inl IndexError) = (name \<in> {[], ''Test'', ''TestTest''})
   \<and> camelcase2spec ''Test'' = Inl IndexError
   \<and> camelcase2spec ''TestTest'' = Inl IndexError
   \<and> (\<not> truthy (getdoc cls) \<and> obj_name cls \<in> {''Test'', ''TestTest''} \<longrightarrow>
        camelcaseDescription cls = Inl IndexError)"
proof -
  have iff: "(camelcase2spec n = Inl IndexError) = (n \<in> {[], ''Test'', ''TestTest''})" for n
    using remove_leading_and_trailing_Nil [of "''Test''" n]
    by (simp add: camelcase2spec_def camel2word_Inl)
  have a: "camel2word [] = Inl IndexError"
    by (simp add: camel2word_def)
  have b: "remove_leading_and_trailing ''Test'' name = [] \<longrightarrow> camelcase2spec name = Inl IndexError"
    by (simp add: camelcase2spec_def camel2word_def)
  have c: "camelcase2spec ''Test'' = Inl IndexError" "camelcase2spec ''TestTest'' = Inl IndexError"
    by (simp_all add: iff)
  have d: "\<not> truthy (getdoc cls) \<and> obj_name cls \<in> {''Test'', ''TestTest''} \<longrightarrow>
        camelcaseDescription cls = Inl IndexError"
    using c by (auto simp add: camelcaseDescription_def)
  from a b iff c d show ?thesis by blast
qed

theorem camel2word_empty_raises_witness:
  "remove_leading_and_trailing ''Test'' ''TestTest'' = []
   \<and> camelcase2spec ''TestTest'' = Inl IndexError
   \<and> \<not> truthy (getdoc bare_class) \<and> obj_name bare_class \<in> {''Test'', ''TestTest''}
   \<and> camelcaseDescription bare_class = Inl IndexError"
proof -
  have r: "remove_leading_and_trailing ''Test'' ''TestTest'' = []"
    by (simp add: remove_leading_and_trailing_Nil)
  have h: "\<not> truthy (getdoc bare_class) \<and> obj_name bare_class \<in> {''Test'', ''TestTest''}"
    by (simp add: bare_class_def plain_object_def truthy_def)
  from camel2word_empty_raises [of "''TestTest''" bare_class] r h show ?thesis
    by blast
qed

section \<open>complete_english\<close>

text \<open>
  C10. \<open>complete_english\<close> is four plain substring replacements, one after the
  other: each replaces its pattern at every place it occurs, whatever stands
  before and after it, so a word that only contains \<open>wont\<close>, such as
  \<open>wonton\<close>, gets an apostrophe in its middle.
\<close>

theorem complete_english_substrings:
  "complete_english s =
     str_replace ''wasnt'' ''wasn't''
       (str_replace ''wont'' ''won't''
         (str_replace ''doesnt'' ''doesn't''
           (str_replace ''dont'' ''don't'' s)))
   \<and> (\<forall>(x, y) \<in> set contractions. \<forall>a b.
         str_replace x y (a @ x @ b) = str_replace x y a @ y @ str_replace x y b)
   \<and> complete_english ''wonton'' = ''won'ton''"
proof -
  have occ: "\<forall>(x, y) \<in> set contractions. \<forall>a b.
         str_replace x y (a @ x @ b) = str_replace x y a @ y @ str_replace x y b"
    using unbordered_contractions by (auto simp add: list_all_iff str_replace_occurrence)
  have "complete_english ''wonton'' = ''won'ton''"
    by code_simp
  with occ complete_english_unfold [of s] show ?thesis by blast
qed

theorem complete_english_substrings_witness:
  "(''wont'', ''won't'') \<in> set contractions
   \<and> str_replace ''wont'' ''won't'' ([] @ ''wont'' @ ''on'') = ''won'ton''"
proof -
  have m: "(''wont'', ''won't'') \<in> set contractions"
    by (simp add: contractions_def)
  from complete_english_substrings [of "[]"]
  have "\<forall>(x, y) \<in> set contractions. \<forall>a b.
         str_replace x y (a @ x @ b) = str_replace x y a @ y @ str_replace x y b"
    by blast
  with m have "\<forall>a b. str_replace ''wont'' ''won't'' (a @ ''wont'' @ b)
         = str_replace ''wont'' ''won't'' a @ ''won't'' @ str_replace ''wont'' ''won't'' b"
    by blast
  then have "str_replace ''wont'' ''won't'' ([] @ ''wont'' @ ''on'')
       = str_replace ''wont'' ''won't'' [] @ ''won't'' @ str_replace ''wont'' ''won't'' ''on''"
    by blast
  moreover have "str_replace ''wont'' ''won't'' [] = []" "str_replace ''wont'' ''won't'' ''on'' = ''on''"
    by code_simp+
  ultimately show ?thesis using m by simp
qed

section \<open>Dispatch\<close>

lemma dispatch_on_type_first:
  "list_all (\<lambda>(k, f). \<not> key_matches inst k) pre \<Longrightarrow> key_matches inst k \<Longrightarrow>
   dispatch_on_type (pre @ (k, f) # post) inst = Some (f inst)"
  by (induction pre) auto

lemma dispatch_on_type_none:
  "list_all (\<lambda>(k, f). \<not> key_matches inst k) table \<Longrightarrow> dispatch_on_type table inst = None"
  by (induction table) auto

lemma testDescription_order:
  "testDescription t =
     (if isinstance (test t) MethodTestCase then Some (noseMethodDescription (test t))
      else if isinstance (test t) FunctionTestCase then Some (noseFunctionDescription (test t))
      else if isinstance (test t) DocTestCase then Some (doctestExamplesDescription (test t))
      else if isinstance (test t) TestCase then Some (unittestMethodDescription (test t))
      else None)"
  by (simp add: testDescription_def supported_test_types_def)

text \<open>
  C2. \<open>dispatch_on_type\<close> returns \<open>func(instance)\<close> for the first entry of the
  table whose key is \<open>True\<close> or a type the instance belongs to, whatever follows
  that entry. \<open>testDescription\<close> tries nose's method case, nose's function
  case, the doctest case and the unittest case in this order, so a doctest
  case, which is a unittest case too, gets the doctest description.
\<close>

theorem dispatch_on_type_first_match:
  "(list_all (\<lambda>(k, f). \<not> key_matches inst k) pre \<and> key_matches inst k \<longrightarrow>
      dispatch_on_type (pre @ (k, f) # post) inst = Some (f inst))
   \<and> key_matches inst k = (k = KTrue \<or> (\<exists>c. k = KType c \<and> isinstance inst c))
   \<and> testDescription t =
       (if isinstance (test t) MethodTestCase then Some (noseMethodDescription (test t))
        else if isinstance (test t) FunctionTestCase then Some (noseFunctionDescription (test t))
        else if isinstance (test t) DocTestCase then Some (doctestExamplesDescription (test t))
        else if isinstance (test t) TestCase then Some (unittestMethodDescription (test t))
        else None)
   \<and> (isinstance (test t) DocTestCase \<and> isinstance (test t) TestCase
        \<and> \<not> isinstance (test t) MethodTestCase \<and> \<not> isinstance (test t) FunctionTestCase \<longrightarrow>
        testDescription t = Some (doctestExamplesDescription (test t))
        \<and> testDescription t \<noteq> Some (unittestMethodDescription (test t)))"
proof -
  have m: "key_matches inst k = (k = KTrue \<or> (\<exists>c. k = KType c \<and> isinstance inst c))"
    by (cases k) simp_all
  have d: "doctestExamplesDescription (test t) \<noteq> unittestMethodDescription (test t)"
    by (simp add: doctestExamplesDescription_def unittestMethodDescription_def)
  from m d dispatch_on_type_first [of inst pre k f post] testDescription_order [of t]
  show ?thesis by simp
qed

theorem dispatch_on_type_first_match_witness:
  "list_all (\<lambda>(k, f). \<not> key_matches (test doctest_test) k)
      [(KType MethodTestCase, noseMethodDescription), (KType FunctionTestCase, noseFunctionDescription)]
   \<and> key_matches (test doctest_test) (KType DocTestCase)
   \<and> dispatch_on_type supported_test_types (test doctest_test) = Some (Generator [''2 + 3 returns 5''])
   \<and> isinstance (test doctest_test) DocTestCase \<and> isinstance (test doctest_test) TestCase
   \<and> \<not> isinstance (test doctest_test) MethodTestCase \<and> \<not> isinstance (test doctest_test) FunctionTestCase
   \<and> testDescription doctest_test = Some (Generator [''2 + 3 returns 5''])"
proof -
  have i: "isinstance (test doctest_test) DocTestCase \<and> isinstance (test doctest_test) TestCase
      \<and> \<not> isinstance (test doctest_test) MethodTestCase \<and> \<not> isinstance (test doctest_test) FunctionTestCase"
    by (simp add: doctest_test_def plain_case_def isinstance_def)
  have v: "doctestExamplesDescription (test doctest_test) = Generator [''2 + 3 returns 5'']"
    by code_simp
  from i have pre: "list_all (\<lambda>(k, f). \<not> key_matches (test doctest_test) k)
      [(KType MethodTestCase, noseMethodDescription), (KType FunctionTestCase, noseFunctionDescription)]"
    by simp
  from i have k: "key_matches (test doctest_test) (KType DocTestCase)" by simp
  from dispatch_on_type_first_match
    [of "test doctest_test"
        "[(KType MethodTestCase, noseMethodDescription), (KType FunctionTestCase, noseFunctionDescription)]"
        "KType DocTestCase" doctestExamplesDescription
        "[(KType TestCase, unittestMethodDescription)]" doctest_test]
    pre k i v
  show ?thesis by (simp add: supported_test_types_def)
qed

text \<open>
  C9. When no entry of the table matches, \<open>dispatch_on_type\<close> returns \<open>None\<close>;
  so for a test object that is none of the four supported kinds
  \<open>testDescription\<close> returns \<open>None\<close>, and \<open>print_spec\<close> returns without
  raising and leaves the stream as it was, nothing written.
\<close>

theorem dispatch_on_type_no_match:
  "(list_all (\<lambda>(k, f). \<not> key_matches inst k) table \<longrightarrow> dispatch_on_type table inst = None)
   \<and> (\<not> isinstance (test t) MethodTestCase \<and> \<not> isinstance (test t) FunctionTestCase
        \<and> \<not> isinstance (test t) DocTestCase \<and> \<not> isinstance (test t) TestCase \<longrightarrow>
        testDescription t = None \<and> print_spec colorized t status s = Returned s)"
  using dispatch_on_type_none [of inst table] testDescription_order [of t]
  by (simp add: print_spec_def)

theorem dispatch_on_type_no_match_witness:
  "list_all (\<lambda>(k, f). \<not> key_matches (test unknown_test) k) supported_test_types
   \<and> dispatch_on_type supported_test_types (test unknown_test) = None
   \<and> \<not> isinstance (test unknown_test) MethodTestCase \<and> \<not> isinstance (test unknown_test) FunctionTestCase
   \<and> \<not> isinstance (test unknown_test) DocTestCase \<and> \<not> isinstance (test unknown_test) TestCase
   \<and> testDescription unknown_test = None
   \<and> print_spec (in_color ''red'') unknown_test (Some ''FAILED'') (OutputStream_init [] [])
       = Returned (OutputStream_init [] [])"
proof -
  have i: "\<not> isinstance (test unknown_test) MethodTestCase \<and> \<not> isinstance (test unknown_test) FunctionTestCase
      \<and> \<not> isinstance (test unknown_test) DocTestCase \<and> \<not> isinstance (test unknown_test) TestCase"
    by (simp add: unknown_test_def plain_case_def isinstance_def)
  then have l: "list_all (\<lambda>(k, f). \<not> key_matches (test unknown_test) k) supported_test_types"
    by (simp add: supported_test_types_def)
  from dispatch_on_type_no_match
    [of "test unknown_test" supported_test_types unknown_test "in_color ''red''" "Some ''FAILED''"
        "OutputStream_init [] []"] i l
  show ?thesis by blast
qed

section \<open>Colors\<close>

lemma in_color_lines_known:
  "colors color = Some esc \<Longrightarrow>
   in_color_lines color ls = Inr (concat (map (\<lambda>line. esc @ line @ color_end) ls))"
  by (induction ls) simp_all

lemma concat_splitlines_from: "k \<Longrightarrow> concat (splitlines_from k cur s) = cur @ s"
  by (induction k cur s rule: splitlines_from.induct) simp_all

lemma one_line_plain: "\<forall>c \<in> set cur. \<not> terminator c \<Longrightarrow> cur \<noteq> [] \<Longrightarrow> one_line cur"
  by (simp add: one_line_def)

lemma dropWhile_plain:
  "\<forall>c \<in> set cur. \<not> terminator c \<Longrightarrow>
   dropWhile (\<lambda>c. \<not> terminator c) (cur @ t) = dropWhile (\<lambda>c. \<not> terminator c) t"
  by (induction cur) simp_all

lemma one_line_terminated:
  assumes "\<forall>c \<in> set cur. \<not> terminator c"
    and "t = [CHR 0x0A] \<or> t = [CHR 0x0D] \<or> t = [CHR 0x0D, CHR 0x0A]"
  shows "one_line (cur @ t)"
proof -
  from assms(2) have "dropWhile (\<lambda>c. \<not> terminator c) t = t" and "t \<noteq> []"
    by (auto simp add: terminator_def)
  with assms show ?thesis
    by (auto simp add: one_line_def dropWhile_plain)
qed


lemma one_line_splitlines_from:
  "k \<Longrightarrow> \<forall>c \<in> set cur. \<not> terminator c \<Longrightarrow>
   \<forall>l \<in> set (splitlines_from k cur s). one_line l"
proof (induction k cur s rule: splitlines_from.induct)
  case (1 keepends cur)
  then show ?case by (simp add: one_line_plain)
next
  case (2 keepends cur c)
  show ?case
  proof (cases "terminator c")
    case True
    then have "[c] = [CHR 0x0A] \<or> [c] = [CHR 0x0D] \<or> [c] = [CHR 0x0D, CHR 0x0A]"
      by (simp add: terminator_def)
    from one_line_terminated [OF "2.prems"(2) this] True "2.prems"(1) show ?thesis
      by (simp add: terminator_def)
  next
    case False
    with "2.prems" have "one_line (cur @ [c])"
      by (intro one_line_plain) auto
    with False show ?thesis by (simp add: terminator_def)
  qed
next
  case (3 keepends cur c d cs)
  show ?case
  proof (cases "c = CHR 0x0D \<and> d = CHR 0x0A")
    case True
    then have "[c, d] = [CHR 0x0A] \<or> [c, d] = [CHR 0x0D] \<or> [c, d] = [CHR 0x0D, CHR 0x0A]"
      by simp
    from one_line_terminated [OF "3.prems"(2) this] have h: "one_line (cur @ [c, d])" .
    from "3.IH"(1) [OF True "3.prems"(1)] have t: "\<forall>l \<in> set (splitlines_from keepends [] cs). one_line l"
      by simp
    from True h t "3.prems"(1) show ?thesis by simp
  next
    case nocrlf: False
    show ?thesis
    proof (cases "terminator c")
      case True
      then have tc: "c = CHR 0x0A \<or> c = CHR 0x0D" by (simp add: terminator_def)
      then have "[c] = [CHR 0x0A] \<or> [c] = [CHR 0x0D] \<or> [c] = [CHR 0x0D, CHR 0x0A]"
        by simp
      from one_line_terminated [OF "3.prems"(2) this] have h: "one_line (cur @ [c])" .
      from "3.IH"(2) [OF nocrlf tc "3.prems"(1)]
      have t: "\<forall>l \<in> set (splitlines_from keepends [] (d # cs)). one_line l" by simp
      from nocrlf tc h t "3.prems"(1) show ?thesis by auto
    next
      case False
      then have ntc: "\<not> (c = CHR 0x0A \<or> c = CHR 0x0D)" by (simp add: terminator_def)
      from False "3.prems"(2) have "\<forall>x \<in> set (cur @ [c]). \<not> terminator x" by simp
      from "3.IH"(3) [OF nocrlf ntc "3.prems"(1) this] nocrlf ntc show ?thesis
        by simp
    qed
  qed
qed

text \<open>
  C7. The color option switches colorization: with the option off, the plugin's
  colorize function returns the text as it is, for every color name; with it
  on, it is \<open>in_color\<close>, which for a color of the table puts that color's
  escape sequence before and the reset code \<open>ESC[1;0m\<close> after each line of the
  text, the line's terminator between them. The lines are those of
  \<open>splitlines(True)\<close>: together they are the text, and each is one line.
\<close>

theorem colorize_option:
  "(\<not> opt_truthy (spec_color opts) \<longrightarrow>
      colorize (snd (configure opts self)) color text = Inr text)
   \<and> (opt_truthy (spec_color opts) \<longrightarrow>
      colorize (snd (configure opts self)) color text = in_color color text)
   \<and> (colors color = Some esc \<longrightarrow>
      in_color color text
        = Inr (concat (map (\<lambda>line. esc @ line @ color_end) (splitlines True text))))
   \<and> concat (splitlines True text) = text
   \<and> (\<forall>line \<in> set (splitlines True text). one_line line)
   \<and> color_end = CHR 0x1B # ''[1;0m''
   \<and> colors ''green'' = Some (CHR 0x1B # ''[1;32m'')
   \<and> colors ''red'' = Some (CHR 0x1B # ''[1;31m'')
   \<and> colors ''yellow'' = Some (CHR 0x1B # ''[1;33m'')"
proof -
  have a: "\<not> opt_truthy (spec_color opts) \<longrightarrow>
      colorize (snd (configure opts self)) color text = Inr text"
    by (simp add: configure_def Let_def)
  have b: "opt_truthy (spec_color opts) \<longrightarrow>
      colorize (snd (configure opts self)) color text = in_color color text"
    by (simp add: configure_def Let_def)
  have c: "colors color = Some esc \<longrightarrow>
      in_color color text
        = Inr (concat (map (\<lambda>line. esc @ line @ color_end) (splitlines True text)))"
    by (simp add: in_color_def in_color_lines_known)
  have d: "concat (splitlines True text) = text"
    by (simp add: splitlines_def concat_splitlines_from)
  have e: "\<forall>line \<in> set (splitlines True text). one_line line"
    unfolding splitlines_def by (rule one_line_splitlines_from) simp_all
  have f: "colors ''green'' = Some (CHR 0x1B # ''[1;32m'')"
    "colors ''red'' = Some (CHR 0x1B # ''[1;31m'')"
    "colors ''yellow'' = Some (CHR 0x1B # ''[1;33m'')"
    by (simp_all add: colors_def)
  have g: "color_end = CHR 0x1B # ''[1;0m''"
    by (simp add: color_end_def)
  from a b c d e f g show ?thesis by blast
qed


theorem colorize_option_witness:
  "\<not> opt_truthy (spec_color default_options)
   \<and> colorize (snd (configure default_options (started default_options))) ''red'' ''ok'' = Inr ''ok''
   \<and> opt_truthy (spec_color color_options)
   \<and> colors ''red'' = Some (CHR 0x1B # ''[1;31m'')
   \<and> colorize (snd (configure color_options (started default_options))) ''red''
        [CHR ''a'', CHR 0x0A, CHR ''b'']
      = Inr ((CHR 0x1B # ''[1;31m'') @ [CHR ''a'', CHR 0x0A] @ (CHR 0x1B # ''[1;0m'')
             @ (CHR 0x1B # ''[1;31m'') @ ''b'' @ (CHR 0x1B # ''[1;0m''))
   \<and> [CHR ''a'', CHR 0x0A] \<in> set (splitlines True [CHR ''a'', CHR 0x0A, CHR ''b''])
   \<and> one_line [CHR ''a'', CHR 0x0A]"
proof -
  have off: "\<not> opt_truthy (spec_color default_options)"
    by (simp add: default_options_def)
  have on: "opt_truthy (spec_color color_options)"
    by (simp add: color_options_def default_options_def)
  have sp: "splitlines True [CHR ''a'', CHR 0x0A, CHR ''b''] = [[CHR ''a'', CHR 0x0A], ''b'']"
    by (simp add: splitlines_def)
  note w1 = colorize_option [of default_options "started default_options" "''red''" "''ok''"
      "CHR 0x1B # ''[1;31m''"]
  note w2 = colorize_option [of color_options "started default_options" "''red''"
      "[CHR ''a'', CHR 0x0A, CHR ''b'']" "CHR 0x1B # ''[1;31m''"]
  note tl2 = w2 [THEN conjunct2, THEN conjunct2]
  note tl5 = tl2 [THEN conjunct2, THEN conjunct2, THEN conjunct2]
  have r1: "colorize (snd (configure default_options (started default_options))) ''red'' ''ok'' = Inr ''ok''"
    by (rule w1 [THEN conjunct1, THEN mp, OF off])
  have red: "colors ''red'' = Some (CHR 0x1B # ''[1;31m'')"
    by (rule tl5 [THEN conjunct2, THEN conjunct2, THEN conjunct1])
  have ce: "color_end = CHR 0x1B # ''[1;0m''"
    by (rule tl5 [THEN conjunct1])
  have c2: "colorize (snd (configure color_options (started default_options))) ''red''
        [CHR ''a'', CHR 0x0A, CHR ''b''] = in_color ''red'' [CHR ''a'', CHR 0x0A, CHR ''b'']"
    by (rule w2 [THEN conjunct2, THEN conjunct1, THEN mp, OF on])
  have ic: "in_color ''red'' [CHR ''a'', CHR 0x0A, CHR ''b'']
      = Inr (concat (map (\<lambda>line. (CHR 0x1B # ''[1;31m'') @ line @ color_end)
               (splitlines True [CHR ''a'', CHR 0x0A, CHR ''b''])))"
    by (rule tl2 [THEN conjunct1, THEN mp, OF red])
  have r2: "colorize (snd (configure color_options (started default_options))) ''red''
        [CHR ''a'', CHR 0x0A, CHR ''b'']
      = Inr ((CHR 0x1B # ''[1;31m'') @ [CHR ''a'', CHR 0x0A] @ (CHR 0x1B # ''[1;0m'')
             @ (CHR 0x1B # ''[1;31m'') @ ''b'' @ (CHR 0x1B # ''[1;0m''))"
    unfolding c2 ic sp ce by simp
  have al: "\<forall>line \<in> set (splitlines True [CHR ''a'', CHR 0x0A, CHR ''b'']). one_line line"
    by (rule tl2 [THEN conjunct2, THEN conjunct2, THEN conjunct1])
  have mem: "[CHR ''a'', CHR 0x0A] \<in> set (splitlines True [CHR ''a'', CHR 0x0A, CHR ''b''])"
    unfolding sp by simp
  from al mem have ol: "one_line [CHR ''a'', CHR 0x0A]" by (rule bspec)
  show ?thesis
    by (intro conjI off r1 on red r2 mem ol)
qed

section \<open>Writing to the stream\<close>

lemma print_text_eq:
  "print_text text s = s\<lparr>on_stream := on_stream s @ [text], stream := OffStream\<rparr>"
  by (simp add: print_text_def on_def off_def stream_write_def)

lemma print_line_eq:
  "print_line line s = s\<lparr>on_stream := on_stream s @ [line @ [CHR 0x0A]], stream := OffStream\<rparr>"
  by (simp add: print_line_def print_text_eq)

lemma and_then_Returned: "and_then (Returned s) f = f s"
  by (simp add: and_then_def)

lemma and_then_Raised: "and_then (Raised e s) f = Raised e s"
  by (simp add: and_then_def)

lemma print_one_spec_off:
  "stream s = OffStream \<Longrightarrow>
   stream (state_of (print_one_spec colorized spc status s)) = OffStream"
  by (simp add: print_one_spec_def print_line_eq split: sum.splits)

lemma print_one_spec_Returned_off:
  "print_one_spec colorized spc status s = Returned s' \<Longrightarrow> stream s' = OffStream"
  by (auto simp add: print_one_spec_def print_line_eq split: sum.splits)

lemma print_one_spec_Raised_same:
  "print_one_spec colorized spc status s = Raised e s' \<Longrightarrow> s' = s"
  by (auto simp add: print_one_spec_def split: sum.splits)

lemma print_each_spec_off:
  "stream s = OffStream \<Longrightarrow>
   stream (state_of (print_each_spec colorized ls status s)) = OffStream"
proof (induction ls arbitrary: s)
  case Nil
  then show ?case by simp
next
  case (Cons l ls)
  show ?case
  proof (cases "print_one_spec colorized l status s")
    case (Returned s')
    with print_one_spec_Returned_off [OF Returned] Cons.IH [of s'] show ?thesis
      by (simp add: and_then_Returned)
  next
    case (Raised e s')
    with print_one_spec_Raised_same [OF Raised] Cons.prems show ?thesis
      by (simp add: and_then_Raised)
  qed
qed

lemma print_spec_off:
  "stream s = OffStream \<Longrightarrow> stream (state_of (print_spec colorized t status s)) = OffStream"
  by (simp add: print_spec_def print_each_spec_off print_one_spec_off
      split: option.splits spec.splits)

lemma with_stream_state:
  "spec_stream (state_of (with_stream f self)) = state_of (f (spec_stream self))"
  by (cases "f (spec_stream self)") (simp_all add: with_stream_def)

lemma with_stream_returned: "returned (with_stream f self) = returned (f (spec_stream self))"
  by (cases "f (spec_stream self)") (simp_all add: with_stream_def)

lemma Spec_print_spec_off:
  "stream (spec_stream self) = OffStream \<Longrightarrow>
   stream (spec_stream (state_of (Spec_print_spec color t status self))) = OffStream"
  by (simp add: Spec_print_spec_def with_stream_state print_spec_off)

lemma addError_unfold:
  "addError t err self =
     Spec_print_spec (fst (error_status (fst (snd err)))) t
       (Some (snd (error_status (fst (snd err))))) self"
  by (simp add: addError_def supported_error_types_def print_spec_func_def error_status_def)

section \<open>What an outcome hook prints\<close>

lemma fold_print_line_on:
  "on_stream (fold (\<lambda>l. print_line (f l)) ls s) = on_stream s @ map (\<lambda>l. f l @ [CHR 0x0A]) ls"
  by (induction ls arbitrary: s) (simp_all add: print_line_eq)

lemma print_each_spec_total:
  assumes "\<And>x. colorized x = Inr (p x)"
  shows "print_each_spec colorized ls status s =
     Returned (fold (\<lambda>l. print_line
        (p (if truthy status then ''- '' @ l @ '' ('' @ the status @ '')'' else ''- '' @ l))) ls s)"
  by (induction ls arbitrary: s) (simp_all add: print_one_spec_def assms and_then_Returned)

lemma print_spec_total:
  assumes "\<And>x. colorized x = Inr (p x)"
  shows "print_spec colorized t status s =
     Returned (fold (\<lambda>l. print_line
        (p (if truthy status then ''- '' @ l @ '' ('' @ the status @ '')'' else ''- '' @ l)))
        (spec_lines t) s)"
  by (simp add: print_spec_def spec_lines_def print_each_spec_total [OF assms]
      print_one_spec_def assms split: option.splits spec.splits)

lemma Spec_print_spec_display:
  assumes c: "\<And>x. colorize self color x = Inr (paint self color x)"
    and st: "status = None \<or> truthy status"
  shows "returned (Spec_print_spec color t status self)
    \<and> on_stream (spec_stream (state_of (Spec_print_spec color t status self)))
        = on_stream (spec_stream self) @ display self color status t"
proof (cases "suppressed self (test t)")
  case True
  then show ?thesis
    by (simp add: Spec_print_spec_def display_def suppressed_def)
next
  case False
  from st have lab: "(if truthy status then ''- '' @ l @ '' ('' @ the status @ '')'' else ''- '' @ l)
      = ''- '' @ l @ (case status of None \<Rightarrow> [] | Some st \<Rightarrow> '' ('' @ st @ '')'')" for l
    by (auto simp add: truthy_def split: option.splits)
  from False have "Spec_print_spec color t status self
      = with_stream (print_spec (colorize self color) t status) self"
    by (auto simp add: Spec_print_spec_def suppressed_def)
  with False show ?thesis
    by (simp add: with_stream_state with_stream_returned print_spec_total [OF c]
        fold_print_line_on display_def lab)
qed

lemma colorize_configured:
  assumes "colorize self = colorize (snd (configure opts self0))"
    and "colors color = Some esc"
  shows "colorize self color x = Inr (paint self color x)"
  using assms
  by (simp add: paint_def configure_def Let_def in_color_def in_color_lines_known)

text \<open>
  C1. Each outcome hook of a configured plugin returns, and writes to the
  on-stream one line per specification line of the test, colorized and ended
  by a newline: \<open>addSuccess\<close> the line \<open>- spec\<close> in green, \<open>addFailure\<close> the
  line \<open>- spec (FAILED)\<close> in red, \<open>addError\<close> the line with \<open>DEPRECATED\<close> in
  yellow for a DeprecatedTest, otherwise \<open>SKIPPED\<close> in yellow for a SkipTest,
  otherwise \<open>ERROR\<close> in red. Nothing is written for a doctest case while the
  doctest option is off, nor for a test without a nonempty description.
\<close>

theorem outcome_display:
  "colorize self = colorize (snd (configure opts self0)) \<longrightarrow>
     returned (addSuccess t self)
     \<and> on_stream (spec_stream (state_of (addSuccess t self)))
         = on_stream (spec_stream self) @ display self ''green'' None t
     \<and> returned (addFailure t err self)
     \<and> on_stream (spec_stream (state_of (addFailure t err self)))
         = on_stream (spec_stream self) @ display self ''red'' (Some ''FAILED'') t
     \<and> returned (addError t err self)
     \<and> on_stream (spec_stream (state_of (addError t err self)))
         = on_stream (spec_stream self)
           @ display self (fst (error_status (fst (snd err))))
               (Some (snd (error_status (fst (snd err))))) t
     \<and> (\<forall>x. colorize self ''green'' x = Inr (paint self ''green'' x))
     \<and> (\<forall>x. colorize self ''red'' x = Inr (paint self ''red'' x))
     \<and> (\<forall>x. colorize self ''yellow'' x = Inr (paint self ''yellow'' x))"
proof
  assume conf: "colorize self = colorize (snd (configure opts self0))"
  have g: "colorize self ''green'' x = Inr (paint self ''green'' x)" for x
    by (rule colorize_configured [OF conf]) (simp add: colors_def)
  have r: "colorize self ''red'' x = Inr (paint self ''red'' x)" for x
    by (rule colorize_configured [OF conf]) (simp add: colors_def)
  have y: "colorize self ''yellow'' x = Inr (paint self ''yellow'' x)" for x
    by (rule colorize_configured [OF conf]) (simp add: colors_def)
  have e: "colorize self (fst (error_status (fst (snd err)))) x
      = Inr (paint self (fst (error_status (fst (snd err)))) x)" for x
    using r y by (simp add: error_status_def)
  have es: "Some (snd (error_status (fst (snd err)))) = None
      \<or> truthy (Some (snd (error_status (fst (snd err)))))"
    by (simp add: error_status_def truthy_def)
  note s = Spec_print_spec_display [of self "''green''" None t, OF g]
  note f = Spec_print_spec_display [of self "''red''" "Some ''FAILED''" t, OF r]
  note a = Spec_print_spec_display [of self _ _ t, OF e es]
  from s have s': "returned (addSuccess t self)
     \<and> on_stream (spec_stream (state_of (addSuccess t self)))
         = on_stream (spec_stream self) @ display self ''green'' None t"
    by (simp add: addSuccess_def)
  from f have f': "returned (addFailure t err self)
     \<and> on_stream (spec_stream (state_of (addFailure t err self)))
         = on_stream (spec_stream self) @ display self ''red'' (Some ''FAILED'') t"
    by (simp add: addFailure_def truthy_def)
  from a have a': "returned (addError t err self)
     \<and> on_stream (spec_stream (state_of (addError t err self)))
         = on_stream (spec_stream self)
           @ display self (fst (error_status (fst (snd err))))
               (Some (snd (error_status (fst (snd err))))) t"
    by (simp add: addError_unfold)
  from s' f' a' g r y
  show "returned (addSuccess t self)
     \<and> on_stream (spec_stream (state_of (addSuccess t self)))
         = on_stream (spec_stream self) @ display self ''green'' None t
     \<and> returned (addFailure t err self)
     \<and> on_stream (spec_stream (state_of (addFailure t err self)))
         = on_stream (spec_stream self) @ display self ''red'' (Some ''FAILED'') t
     \<and> returned (addError t err self)
     \<and> on_stream (spec_stream (state_of (addError t err self)))
         = on_stream (spec_stream self)
           @ display self (fst (error_status (fst (snd err))))
               (Some (snd (error_status (fst (snd err))))) t
     \<and> (\<forall>x. colorize self ''green'' x = Inr (paint self ''green'' x))
     \<and> (\<forall>x. colorize self ''red'' x = Inr (paint self ''red'' x))
     \<and> (\<forall>x. colorize self ''yellow'' x = Inr (paint self ''yellow'' x))"
    by (intro conjI allI) simp_all
qed

theorem outcome_display_witness:
  "colorize (started color_options) = colorize (snd (configure color_options unconfigured))
   \<and> returned (addError foobar_test skip_error (started color_options))
   \<and> on_stream (spec_stream (state_of (addError foobar_test skip_error (started color_options))))
       = [(CHR 0x1B # ''[1;33m'') @ ''- is a singleton (SKIPPED)'' @ (CHR 0x1B # ''[1;0m'')
          @ [CHR 0x0A]]"
proof -
  have conf: "colorize (started color_options) = colorize (snd (configure color_options unconfigured))"
    by (simp add: started_def begin_run_def setOutputStream_def)
  note main = outcome_display [of "started color_options" color_options unconfigured
      foobar_test skip_error, THEN mp, OF conf]
  note tl4 = main [THEN conjunct2, THEN conjunct2, THEN conjunct2, THEN conjunct2]
  have e: "on_stream (spec_stream (started color_options)) = []"
    by code_simp
  have d: "display (started color_options) (fst (error_status (fst (snd skip_error))))
      (Some (snd (error_status (fst (snd skip_error))))) foobar_test
      = [(CHR 0x1B # ''[1;33m'') @ ''- is a singleton (SKIPPED)'' @ (CHR 0x1B # ''[1;0m'')
          @ [CHR 0x0A]]"
    by code_simp
  have r: "returned (addError foobar_test skip_error (started color_options))"
    by (rule tl4 [THEN conjunct1])
  have o: "on_stream (spec_stream (state_of (addError foobar_test skip_error (started color_options))))
       = [(CHR 0x1B # ''[1;33m'') @ ''- is a singleton (SKIPPED)'' @ (CHR 0x1B # ''[1;0m'')
          @ [CHR 0x0A]]"
    using tl4 [THEN conjunct2, THEN conjunct1] unfolding e d by simp
  show ?thesis by (intro conjI conf r o)
qed

theorem outcome_display_counterexample:
  "spec_lines doctest_test = [''2 + 3 returns 5'']
   \<and> returned (addFailure doctest_test assertion_error (started default_options))
   \<and> on_stream (spec_stream
        (state_of (addFailure doctest_test assertion_error (started default_options)))) = []"
proof (intro conjI)
  show "spec_lines doctest_test = [''2 + 3 returns 5'']"
    by code_simp
  show "returned (addFailure doctest_test assertion_error (started default_options))"
    by code_simp
  show "on_stream (spec_stream
        (state_of (addFailure doctest_test assertion_error (started default_options)))) = []"
    by code_simp
qed

section \<open>beforeTest\<close>

lemma returned_state_of: "returned r \<Longrightarrow> r = Returned (state_of r)"
  by (cases r) simp_all

lemma stream_print_context_eq:
  "stream_print_context ctx s =
     (case contextDescription ctx of
        Some (Inl e) \<Rightarrow> Raised e s
      | _ \<Rightarrow> Returned (s\<lparr>on_stream := on_stream s @ [context_heading ctx],
                          stream := OffStream\<rparr>))"
  by (simp add: stream_print_context_def context_heading_def print_line_eq
      split: option.splits sum.splits)

lemma Spec_print_context_eq:
  "Spec_print_context ctx self =
     (if suppressed_context self ctx then Returned self
      else case contextDescription ctx of
             Some (Inl e) \<Rightarrow> Raised e self
           | _ \<Rightarrow> Returned (self\<lparr>spec_stream := (spec_stream self)
                   \<lparr>on_stream := on_stream (spec_stream self) @ [context_heading ctx],
                    stream := OffStream\<rparr>\<rparr>))"
proof (cases "suppressed_context self ctx")
  case True
  then show ?thesis
    by (simp add: Spec_print_context_def suppressed_context_def suppressed_def
        split: option.splits)
next
  case False
  then have "Spec_print_context ctx self = with_stream (stream_print_context ctx) self"
    by (auto simp add: Spec_print_context_def suppressed_context_def suppressed_def
        split: option.splits)
  with False show ?thesis
    by (simp add: with_stream_def stream_print_context_eq split: option.splits sum.splits)
qed

lemma beforeTest_eq:
  "beforeTest t self =
     (if \<not> context_ne (testContext t) (current_context self)
        then Returned (self\<lparr>spec_stream := (spec_stream self)\<lparr>stream := OffStream\<rparr>\<rparr>)
      else if suppressed_context self (testContext t)
        then Returned (self\<lparr>current_context := testContext t,
                           spec_stream := (spec_stream self)\<lparr>stream := OffStream\<rparr>\<rparr>)
      else case contextDescription (testContext t) of
             Some (Inl e) \<Rightarrow> Raised e self
           | _ \<Rightarrow> Returned (self\<lparr>current_context := testContext t,
                   spec_stream := (spec_stream self)
                     \<lparr>on_stream := on_stream (spec_stream self) @ [context_heading (testContext t)],
                      stream := OffStream\<rparr>\<rparr>))"
proof (cases "context_ne (testContext t) (current_context self)")
  case False
  then show ?thesis
    by (simp add: beforeTest_def and_then_def off_def)
next
  case True
  then show ?thesis
    by (simp add: beforeTest_def Spec_print_context_eq and_then_def off_def
        split: option.splits sum.splits)
qed

lemma beforeTest_off:
  "beforeTest t self = Returned self' \<Longrightarrow> stream (spec_stream self') = OffStream"
  by (auto simp add: beforeTest_eq split: if_splits option.splits sum.splits)

lemma print_one_spec_frame:
  "off_stream (state_of (print_one_spec colorized spc status s)) = off_stream s
   \<and> capture_stream (state_of (print_one_spec colorized spc status s)) = capture_stream s"
  by (simp add: print_one_spec_def print_line_eq split: sum.splits)

lemma print_each_spec_frame:
  "off_stream (state_of (print_each_spec colorized ls status s)) = off_stream s
   \<and> capture_stream (state_of (print_each_spec colorized ls status s)) = capture_stream s"
proof (induction ls arbitrary: s)
  case Nil
  show ?case by simp
next
  case (Cons l ls)
  show ?case
  proof (cases "print_one_spec colorized l status s")
    case (Returned s')
    with print_one_spec_frame [of colorized l status s] Cons.IH [of s'] show ?thesis
      by (simp add: and_then_Returned)
  next
    case (Raised e s')
    with print_one_spec_frame [of colorized l status s] show ?thesis
      by (simp add: and_then_Raised)
  qed
qed

lemma print_spec_frame:
  "off_stream (state_of (print_spec colorized t status s)) = off_stream s
   \<and> capture_stream (state_of (print_spec colorized t status s)) = capture_stream s"
  by (simp add: print_spec_def print_each_spec_frame print_one_spec_frame
      split: option.splits spec.splits)

lemma Spec_print_spec_frame:
  "off_stream (spec_stream (state_of (Spec_print_spec color t status self)))
     = off_stream (spec_stream self)
   \<and> capture_stream (spec_stream (state_of (Spec_print_spec color t status self)))
     = capture_stream (spec_stream self)"
  by (simp add: Spec_print_spec_def with_stream_state print_spec_frame)

lemma after_event_off:
  assumes "stream (spec_stream self) = OffStream"
  shows "stream (spec_stream (after_event e self)) = OffStream
    \<and> off_stream (spec_stream (after_event e self))
        = off_stream (spec_stream self) @ host_writes [e]
    \<and> capture_stream (spec_stream (after_event e self)) = capture_stream (spec_stream self)"
  using assms
  by (cases e)
    (simp_all add: host_write_def stream_write_def addSuccess_def addFailure_def
      addError_unfold Spec_print_spec_off Spec_print_spec_frame)

lemma host_writes_Cons: "host_writes (e # es) = host_writes [e] @ host_writes es"
  by (cases e) simp_all

lemma after_events_off:
  "stream (spec_stream self) = OffStream \<Longrightarrow>
   stream (spec_stream (fold after_event es self)) = OffStream
   \<and> off_stream (spec_stream (fold after_event es self))
       = off_stream (spec_stream self) @ host_writes es
   \<and> capture_stream (spec_stream (fold after_event es self)) = capture_stream (spec_stream self)"
proof (induction es arbitrary: self)
  case Nil
  then show ?case by simp
next
  case (Cons e es)
  from after_event_off [OF Cons.prems, of e] Cons.IH [of "after_event e self"]
  show ?case
    by (simp add: host_writes_Cons [of e es])
qed

text \<open>
  C5. Printing waits for the outcome and the stream is switched: when
  \<open>beforeTest\<close> returns, the active stream is the off-stream; \<open>print_text(t)\<close>
  appends \<open>t\<close> once to the on-stream, touches no other stream and leaves the
  off-stream active; while the off-stream is active a host write goes to the
  off-stream only, and every outcome hook leaves it active; so through any
  sequence of host writes and outcome hooks begun with the off-stream active
  it stays active, the off-stream receives the host's texts in order and the
  capture stream nothing. \<open>afterTest\<close> then makes the capture stream active
  and leaves the on-stream and the off-stream as they were; while the capture
  stream is active a host write goes to the capture stream only.
\<close>

theorem stream_switching:
  "(beforeTest t self = Returned self' \<longrightarrow> stream (spec_stream self') = OffStream)
   \<and> print_text written s = s\<lparr>on_stream := on_stream s @ [written], stream := OffStream\<rparr>
   \<and> (stream (spec_stream self) = OffStream \<longrightarrow>
        host_write written self
          = self\<lparr>spec_stream := (spec_stream self)
                   \<lparr>off_stream := off_stream (spec_stream self) @ [written]\<rparr>\<rparr>
        \<and> stream (spec_stream (state_of (addSuccess t self))) = OffStream
        \<and> stream (spec_stream (state_of (addFailure t err self))) = OffStream
        \<and> stream (spec_stream (state_of (addError t err self))) = OffStream)
   \<and> stream (spec_stream (afterTest t self)) = CaptureStream
   \<and> on_stream (spec_stream (afterTest t self)) = on_stream (spec_stream self)
   \<and> off_stream (spec_stream (afterTest t self)) = off_stream (spec_stream self)
   \<and> (stream (spec_stream self) = CaptureStream \<longrightarrow>
        host_write written self
          = self\<lparr>spec_stream := (spec_stream self)
                   \<lparr>capture_stream := StringIO_write written (capture_stream (spec_stream self))\<rparr>\<rparr>)
   \<and> (stream (spec_stream self) = OffStream \<longrightarrow>
        stream (spec_stream (fold after_event es self)) = OffStream
        \<and> off_stream (spec_stream (fold after_event es self))
            = off_stream (spec_stream self) @ host_writes es
        \<and> capture_stream (spec_stream (fold after_event es self))
            = capture_stream (spec_stream self))"
proof -
  have a: "beforeTest t self = Returned self' \<longrightarrow> stream (spec_stream self') = OffStream"
    using beforeTest_off by blast
  have b: "stream (spec_stream self) = OffStream \<longrightarrow>
        host_write written self
          = self\<lparr>spec_stream := (spec_stream self)
                   \<lparr>off_stream := off_stream (spec_stream self) @ [written]\<rparr>\<rparr>"
    by (simp add: host_write_def stream_write_def)
  have c: "stream (spec_stream self) = OffStream \<longrightarrow>
        stream (spec_stream (state_of (addSuccess t self))) = OffStream
        \<and> stream (spec_stream (state_of (addFailure t err self))) = OffStream
        \<and> stream (spec_stream (state_of (addError t err self))) = OffStream"
    by (simp add: addSuccess_def addFailure_def addError_unfold Spec_print_spec_off)
  have d: "stream (spec_stream (afterTest t self)) = CaptureStream"
    "on_stream (spec_stream (afterTest t self)) = on_stream (spec_stream self)"
    "off_stream (spec_stream (afterTest t self)) = off_stream (spec_stream self)"
    by (simp_all add: afterTest_def capture_def)
  have e: "stream (spec_stream self) = CaptureStream \<longrightarrow>
        host_write written self
          = self\<lparr>spec_stream := (spec_stream self)
                   \<lparr>capture_stream := StringIO_write written (capture_stream (spec_stream self))\<rparr>\<rparr>"
    by (simp add: host_write_def stream_write_def)
  have f: "stream (spec_stream self) = OffStream \<longrightarrow>
        stream (spec_stream (fold after_event es self)) = OffStream
        \<and> off_stream (spec_stream (fold after_event es self))
            = off_stream (spec_stream self) @ host_writes es
        \<and> capture_stream (spec_stream (fold after_event es self))
            = capture_stream (spec_stream self)"
    using after_events_off [of self es] by blast
  from a b c d e f print_text_eq [of written s] show ?thesis
    by (intro conjI impI) simp_all
qed

theorem stream_switching_witness:
  "beforeTest foobar_test (started default_options) = Returned in_foobar
   \<and> stream (spec_stream in_foobar) = OffStream
   \<and> off_stream (spec_stream (host_write ''test_is_a_singleton ... '' in_foobar))
       = [''test_is_a_singleton ... '']
   \<and> on_stream (spec_stream (host_write ''test_is_a_singleton ... '' in_foobar))
       = [[CHR 0x0A] @ ''Foobar'' @ [CHR 0x0A]]
   \<and> stream (spec_stream (state_of (addSuccess foobar_test in_foobar))) = OffStream
   \<and> stream (spec_stream after_first_test) = CaptureStream
   \<and> buf (capture_stream (spec_stream (host_write ''Ran 1 test'' after_first_test)))
       = ''Ran 1 test''
   \<and> off_stream (spec_stream (host_write ''Ran 1 test'' after_first_test)) = []
   \<and> off_stream (spec_stream
        (fold after_event
          [HostWrite ''test_is_a_singleton ... '', AddSuccess foobar_test, HostWrite ''ok'']
          in_foobar))
       = [''test_is_a_singleton ... '', ''ok'']"
proof -
  have r: "returned (beforeTest foobar_test (started default_options))"
    by code_simp
  then have h: "beforeTest foobar_test (started default_options) = Returned in_foobar"
    unfolding in_foobar_def by (rule returned_state_of)
  note main = stream_switching [of foobar_test "started default_options" in_foobar]
  have o: "stream (spec_stream in_foobar) = OffStream"
    by (rule main [THEN conjunct1, THEN mp, OF h])
  note next_hooks = stream_switching [of foobar_test in_foobar _
      "''test_is_a_singleton ... ''" _ assertion_error,
      THEN conjunct2, THEN conjunct2, THEN conjunct1, THEN mp, OF o]
  have w: "off_stream (spec_stream (host_write ''test_is_a_singleton ... '' in_foobar))
       = off_stream (spec_stream in_foobar) @ [''test_is_a_singleton ... '']"
    by (subst next_hooks [THEN conjunct1]) simp
  have w': "on_stream (spec_stream (host_write ''test_is_a_singleton ... '' in_foobar))
       = on_stream (spec_stream in_foobar)"
    by (subst next_hooks [THEN conjunct1]) simp
  have e: "off_stream (spec_stream in_foobar) = []"
    by code_simp
  have e': "on_stream (spec_stream in_foobar) = [[CHR 0x0A] @ ''Foobar'' @ [CHR 0x0A]]"
    by code_simp
  have s: "stream (spec_stream (state_of (addSuccess foobar_test in_foobar))) = OffStream"
    by (rule next_hooks [THEN conjunct2, THEN conjunct1])
  have cap: "stream (spec_stream after_first_test) = CaptureStream"
    by code_simp
  note captured = stream_switching [of foobar_test after_first_test _ "''Ran 1 test''",
      THEN conjunct2, THEN conjunct2, THEN conjunct2, THEN conjunct2, THEN conjunct2,
      THEN conjunct2, THEN conjunct1, THEN mp, OF cap]
  note through = stream_switching [of foobar_test in_foobar _ _ _ _
      "[HostWrite ''test_is_a_singleton ... '', AddSuccess foobar_test, HostWrite ''ok'']",
      THEN conjunct2, THEN conjunct2, THEN conjunct2, THEN conjunct2, THEN conjunct2,
      THEN conjunct2, THEN conjunct2, THEN mp, OF o]
  have cb: "buf (capture_stream (spec_stream (host_write ''Ran 1 test'' after_first_test)))
      = buf (StringIO_write ''Ran 1 test'' (capture_stream (spec_stream after_first_test)))"
    by (subst captured) simp
  have co: "off_stream (spec_stream (host_write ''Ran 1 test'' after_first_test))
      = off_stream (spec_stream after_first_test)"
    by (subst captured) simp
  have cb': "buf (StringIO_write ''Ran 1 test'' (capture_stream (spec_stream after_first_test)))
      = ''Ran 1 test''"
    by code_simp
  have co': "off_stream (spec_stream after_first_test) = []"
    by code_simp
  from through [THEN conjunct2, THEN conjunct1] e
  have tr: "off_stream (spec_stream
        (fold after_event
          [HostWrite ''test_is_a_singleton ... '', AddSuccess foobar_test, HostWrite ''ok'']
          in_foobar))
       = [''test_is_a_singleton ... '', ''ok'']"
    by simp
  have first_part: "beforeTest foobar_test (started default_options) = Returned in_foobar
   \<and> stream (spec_stream in_foobar) = OffStream
   \<and> off_stream (spec_stream (host_write ''test_is_a_singleton ... '' in_foobar))
       = [''test_is_a_singleton ... '']
   \<and> on_stream (spec_stream (host_write ''test_is_a_singleton ... '' in_foobar))
       = [[CHR 0x0A] @ ''Foobar'' @ [CHR 0x0A]]
   \<and> stream (spec_stream (state_of (addSuccess foobar_test in_foobar))) = OffStream
   \<and> stream (spec_stream after_first_test) = CaptureStream
   \<and> buf (capture_stream (spec_stream (host_write ''Ran 1 test'' after_first_test)))
       = ''Ran 1 test''
   \<and> off_stream (spec_stream (host_write ''Ran 1 test'' after_first_test)) = []"
    using h o w w' e e' s cap cb co cb' co' by simp
  from first_part tr show ?thesis by (simp only: simp_thms)
qed

theorem stream_switching_counterexample:
  "returned (beforeTest foobar_test (started default_options))
   \<and> returned (addSuccess foobar_test (state_of (beforeTest foobar_test (started default_options))))
   \<and> stream (spec_stream after_first_test) = CaptureStream
   \<and> off_stream (spec_stream after_first_test) = []
   \<and> off_stream (spec_stream (host_write ''x'' after_first_test)) = []
   \<and> buf (capture_stream (spec_stream (host_write ''x'' after_first_test))) = ''x''
   \<and> \<not> returned (beforeTest bare_test after_first_test)
   \<and> stream (spec_stream (state_of (beforeTest bare_test after_first_test))) = CaptureStream"
proof (intro conjI)
  show "returned (beforeTest foobar_test (started default_options))"
    by code_simp
  show "returned (addSuccess foobar_test (state_of (beforeTest foobar_test (started default_options))))"
    by code_simp
  show "stream (spec_stream after_first_test) = CaptureStream"
    by code_simp
  show "off_stream (spec_stream after_first_test) = []"
    by code_simp
  show "off_stream (spec_stream (host_write ''x'' after_first_test)) = []"
    by code_simp
  show "buf (capture_stream (spec_stream (host_write ''x'' after_first_test))) = ''x''"
    by code_simp
  show "\<not> returned (beforeTest bare_test after_first_test)"
    by code_simp
  show "stream (spec_stream (state_of (beforeTest bare_test after_first_test))) = CaptureStream"
    by code_simp
qed

text \<open>
  C6. When \<open>beforeTest(test)\<close> returns, it has changed nothing of the plugin but
  the current context, the active stream and what the on-stream holds.
  \<open>testContext(test)\<close> is compared with the current context as objects, not
  by name: if they do not differ, no heading is written and the current
  context stays; if they differ, the current context becomes
  \<open>testContext(test)\<close> and the heading of the new context is written, unless
  the context is a doctest case while the doctest option is off, when nothing
  is written.
\<close>

theorem beforeTest_frame:
  "beforeTest t self = Returned self' \<longrightarrow>
     colorize self' = colorize self
     \<and> spec_doctests self' = spec_doctests self
     \<and> capture_stream (spec_stream self') = capture_stream (spec_stream self)
     \<and> off_stream (spec_stream self') = off_stream (spec_stream self)
     \<and> stream (spec_stream self') = OffStream
     \<and> (\<not> context_ne (testContext t) (current_context self) \<longrightarrow>
          current_context self' = current_context self
          \<and> on_stream (spec_stream self') = on_stream (spec_stream self))
     \<and> (context_ne (testContext t) (current_context self) \<longrightarrow>
          current_context self' = testContext t
          \<and> on_stream (spec_stream self')
              = on_stream (spec_stream self)
                @ (if suppressed_context self (testContext t) then []
                   else [context_heading (testContext t)]))"
  by (auto simp add: beforeTest_eq split: if_splits option.splits sum.splits)

theorem beforeTest_frame_witness:
  "beforeTest foobar_test (started default_options) = Returned in_foobar
   \<and> context_ne (testContext foobar_test) (current_context (started default_options))
   \<and> current_context in_foobar = Some foobar_class
   \<and> on_stream (spec_stream in_foobar) = [[CHR 0x0A] @ ''Foobar'' @ [CHR 0x0A]]
   \<and> beforeTest foobar_test in_foobar = Returned (state_of (beforeTest foobar_test in_foobar))
   \<and> \<not> context_ne (testContext foobar_test) (current_context in_foobar)
   \<and> on_stream (spec_stream (state_of (beforeTest foobar_test in_foobar)))
       = [[CHR 0x0A] @ ''Foobar'' @ [CHR 0x0A]]
   \<and> beforeTest other_foobar_test in_foobar
       = Returned (state_of (beforeTest other_foobar_test in_foobar))
   \<and> obj_name other_foobar_class = obj_name foobar_class
   \<and> context_ne (testContext other_foobar_test) (current_context in_foobar)
   \<and> current_context (state_of (beforeTest other_foobar_test in_foobar))
       = Some other_foobar_class
   \<and> on_stream (spec_stream (state_of (beforeTest other_foobar_test in_foobar)))
       = [[CHR 0x0A] @ ''Foobar'' @ [CHR 0x0A], [CHR 0x0A] @ ''Foobar'' @ [CHR 0x0A]]"
proof -
  have r1: "returned (beforeTest foobar_test (started default_options))"
    by code_simp
  then have h1: "beforeTest foobar_test (started default_options) = Returned in_foobar"
    unfolding in_foobar_def by (rule returned_state_of)
  have n1: "context_ne (testContext foobar_test) (current_context (started default_options))"
    by code_simp
  note first = beforeTest_frame [of foobar_test "started default_options" in_foobar,
      THEN mp, OF h1]
  note changed1 = first [THEN conjunct2, THEN conjunct2, THEN conjunct2, THEN conjunct2,
      THEN conjunct2, THEN conjunct2, THEN mp, OF n1]
  have c1: "testContext foobar_test = Some foobar_class"
    by code_simp
  have s1: "\<not> suppressed_context (started default_options) (testContext foobar_test)"
    by code_simp
  have d1: "context_heading (testContext foobar_test) = [CHR 0x0A] @ ''Foobar'' @ [CHR 0x0A]"
    by code_simp
  have e1: "on_stream (spec_stream (started default_options)) = []"
    by code_simp
  from changed1 c1 have cc1: "current_context in_foobar = Some foobar_class"
    by simp
  from changed1 s1 d1 e1
  have oo1: "on_stream (spec_stream in_foobar) = [[CHR 0x0A] @ ''Foobar'' @ [CHR 0x0A]]"
    by simp
  have r2: "returned (beforeTest foobar_test in_foobar)"
    by code_simp
  then have h2: "beforeTest foobar_test in_foobar
      = Returned (state_of (beforeTest foobar_test in_foobar))"
    by (rule returned_state_of)
  have n2: "\<not> context_ne (testContext foobar_test) (current_context in_foobar)"
    by code_simp
  note same = beforeTest_frame [of foobar_test in_foobar
      "state_of (beforeTest foobar_test in_foobar)", THEN mp, OF h2]
  note kept = same [THEN conjunct2, THEN conjunct2, THEN conjunct2, THEN conjunct2,
      THEN conjunct2, THEN conjunct1, THEN mp, OF n2]
  from kept oo1
  have oo2: "on_stream (spec_stream (state_of (beforeTest foobar_test in_foobar)))
       = [[CHR 0x0A] @ ''Foobar'' @ [CHR 0x0A]]"
    by simp
  have r3: "returned (beforeTest other_foobar_test in_foobar)"
    by code_simp
  then have h3: "beforeTest other_foobar_test in_foobar
      = Returned (state_of (beforeTest other_foobar_test in_foobar))"
    by (rule returned_state_of)
  have nm: "obj_name other_foobar_class = obj_name foobar_class"
    by code_simp
  have n3: "context_ne (testContext other_foobar_test) (current_context in_foobar)"
    by code_simp
  note other = beforeTest_frame [of other_foobar_test in_foobar
      "state_of (beforeTest other_foobar_test in_foobar)", THEN mp, OF h3]
  note changed3 = other [THEN conjunct2, THEN conjunct2, THEN conjunct2, THEN conjunct2,
      THEN conjunct2, THEN conjunct2, THEN mp, OF n3]
  have c3: "testContext other_foobar_test = Some other_foobar_class"
    by code_simp
  have s3: "\<not> suppressed_context in_foobar (testContext other_foobar_test)"
    by code_simp
  have d3: "context_heading (testContext other_foobar_test) = [CHR 0x0A] @ ''Foobar'' @ [CHR 0x0A]"
    by code_simp
  from changed3 c3
  have cc3: "current_context (state_of (beforeTest other_foobar_test in_foobar))
       = Some other_foobar_class"
    by simp
  from changed3 s3 d3 oo1
  have oo3: "on_stream (spec_stream (state_of (beforeTest other_foobar_test in_foobar)))
       = [[CHR 0x0A] @ ''Foobar'' @ [CHR 0x0A], [CHR 0x0A] @ ''Foobar'' @ [CHR 0x0A]]"
    by simp
  show ?thesis
    by (intro conjI h1 n1 cc1 oo1 h2 n2 oo2 h3 nm n3 cc3 oo3)
qed

theorem beforeTest_frame_counterexample:
  "returned (beforeTest doctest_test (started default_options))
   \<and> context_ne (testContext doctest_test) (current_context (started default_options))
   \<and> contextDescription (testContext doctest_test) = Some (Inr ''containers.add'')
   \<and> current_context (state_of (beforeTest doctest_test (started default_options)))
       = testContext doctest_test
   \<and> on_stream (spec_stream (state_of (beforeTest doctest_test (started default_options)))) = []"
proof (intro conjI)
  show "returned (beforeTest doctest_test (started default_options))"
    by code_simp
  show "context_ne (testContext doctest_test) (current_context (started default_options))"
    by code_simp
  show "contextDescription (testContext doctest_test) = Some (Inr ''containers.add'')"
    by code_simp
  show "current_context (state_of (beforeTest doctest_test (started default_options)))
       = testContext doctest_test"
    by code_simp
  show "on_stream (spec_stream (state_of (beforeTest doctest_test (started default_options)))) = []"
    by code_simp
qed

end
